theory Spec2Isabelle
  imports
    Complex_Main
    "HOL-Library.Char_ord"
    "HOL-Library.List_Lexorder"
    "HOL-Library.Product_Lexorder"
    "HOL-Library.Multiset"
    "HOL-Library.Sublist"
    "HOL-Library.AList"
begin

section \<open>reCBZ2: a shallow embedding of the repacking pipeline\<close>

text \<open>
  The theory follows \<^verbatim>\<open>reCBZ2/util.py\<close>, \<^verbatim>\<open>reCBZ2/models/page.py\<close> and
  \<^verbatim>\<open>reCBZ2/models/comic_archive.py\<close>. Python exceptions are values of
  \<open>py_error\<close>; a function that can raise returns \<open>py_error + 'a\<close> with
  \<open>Inl\<close> for the exception. Paths are strings whose components are separated by
  \<open>/\<close> (the \<^verbatim>\<open>str\<close> of a normalised \<^verbatim>\<open>pathlib.Path\<close>). Strings are byte strings:
  the model covers ASCII names.
\<close>

subsection \<open>Exceptions\<close>

datatype py_error =
    ValueError string
  | AssertionError
  | IndexError
  | KeyError
  | IOError
  | TypeError
  | NotImplementedError
  | ZeroDivisionError

subsection \<open>Python slices with stride two\<close>

text \<open>
  \<^verbatim>\<open>xs[a:b:2]\<close>: a negative bound counts from the end, both bounds are clamped to
  \<open>[0, len]\<close>, and an empty range gives the empty list.
\<close>

definition py_slice_bound :: "nat \<Rightarrow> int \<Rightarrow> nat" where
  "py_slice_bound n i = (if i < 0 then nat (max 0 (int n + i)) else min n (nat i))"

fun every_other :: "'a list \<Rightarrow> 'a list" where
  "every_other [] = []"
| "every_other [x] = [x]"
| "every_other (x # y # zs) = x # every_other zs"

definition py_slice2 :: "'a list \<Rightarrow> int \<Rightarrow> int \<Rightarrow> 'a list" where
  "py_slice2 xs a b =
     (let n = length xs; lo = py_slice_bound n a; hi = py_slice_bound n b
      in every_other (take (hi - lo) (drop lo xs)))"

subsection \<open>\<^verbatim>\<open>util.human_sort\<close>\<close>

text \<open>
  \<^verbatim>\<open>
  def human_sort(lst) -> list:
      if not type(lst[0]) is str:
          lst = [str(i) for i in lst]
      convert = lambda text: int(text) if text.isdigit() else text
      alphanum_key = lambda key: [convert(c) for c in split("([0-9]+)", key)]
      return sorted(lst, key=alphanum_key)
  \<close>
  \<^verbatim>\<open>re.split\<close> with a capturing group returns the text between the matches and the
  matches themselves, alternating and starting with a (possibly empty) text run:
  \<^verbatim>\<open>"p10"\<close> gives \<^verbatim>\<open>['p', '10', '']\<close>.
\<close>

definition is_digit :: "char \<Rightarrow> bool" where
  "is_digit c = (let n = (of_char c :: nat) in 48 \<le> n \<and> n \<le> 57)"

fun split_text :: "string \<Rightarrow> string \<Rightarrow> string list"
  and split_digits :: "string \<Rightarrow> string \<Rightarrow> string list" where
  "split_text acc [] = [rev acc]"
| "split_text acc (c # cs) =
     (if is_digit c then rev acc # split_digits [c] cs else split_text (c # acc) cs)"
| "split_digits acc [] = [rev acc, []]"
| "split_digits acc (c # cs) =
     (if is_digit c then split_digits (c # acc) cs else rev acc # split_text [c] cs)"

definition re_split_digits :: "string \<Rightarrow> string list" where
  "re_split_digits key = split_text [] key"

definition isdigit :: "string \<Rightarrow> bool" where
  "isdigit text = (text \<noteq> [] \<and> list_all is_digit text)"

definition int_of_digits :: "string \<Rightarrow> nat" where
  "int_of_digits text = foldl (\<lambda>a c. 10 * a + (of_char c - 48)) 0 text"

text \<open>An element of a sort key is a \<^verbatim>\<open>str\<close> or an \<^verbatim>\<open>int\<close>.\<close>

datatype tok = Txt string | Num nat

definition convert :: "string \<Rightarrow> tok" where
  "convert text = (if isdigit text then Num (int_of_digits text) else Txt text)"

definition alphanum_key :: "string \<Rightarrow> tok list" where
  "alphanum_key key = map convert (re_split_digits key)"

text \<open>
  Python compares two lists at the first position where the elements differ, with \<open><\<close>
  on those elements; \<open><\<close> between a \<^verbatim>\<open>str\<close> and an \<^verbatim>\<open>int\<close> raises TypeError.
\<close>

fun tok_lt :: "tok \<Rightarrow> tok \<Rightarrow> py_error + bool" where
  "tok_lt (Txt a) (Txt b) = Inr (a < b)"
| "tok_lt (Num a) (Num b) = Inr (a < b)"
| "tok_lt (Txt a) (Num b) = Inl TypeError"
| "tok_lt (Num a) (Txt b) = Inl TypeError"

fun key_lt :: "tok list \<Rightarrow> tok list \<Rightarrow> py_error + bool" where
  "key_lt [] [] = Inr False"
| "key_lt [] (y # ys) = Inr True"
| "key_lt (x # xs) [] = Inr False"
| "key_lt (x # xs) (y # ys) = (if x = y then key_lt xs ys else tok_lt x y)"

text \<open>
  \<^verbatim>\<open>sorted(lst, key=...)\<close> is a stable sort that only uses \<open><\<close> on the keys, each key
  computed once. The model is the stable insertion sort; an exception of a comparison
  is the result of the sort.
\<close>

fun insort_lt ::
  "('k \<Rightarrow> 'k \<Rightarrow> py_error + bool) \<Rightarrow> 'k \<times> 'a \<Rightarrow> ('k \<times> 'a) list \<Rightarrow> py_error + ('k \<times> 'a) list" where
  "insort_lt lt x [] = Inr [x]"
| "insort_lt lt x (y # ys) =
     (case lt (fst y) (fst x) of
        Inl e \<Rightarrow> Inl e
      | Inr True \<Rightarrow> (case insort_lt lt x ys of Inl e \<Rightarrow> Inl e | Inr r \<Rightarrow> Inr (y # r))
      | Inr False \<Rightarrow> Inr (x # y # ys))"

fun sorted_lt ::
  "('k \<Rightarrow> 'k \<Rightarrow> py_error + bool) \<Rightarrow> ('k \<times> 'a) list \<Rightarrow> py_error + ('k \<times> 'a) list" where
  "sorted_lt lt [] = Inr []"
| "sorted_lt lt (x # xs) =
     (case sorted_lt lt xs of Inl e \<Rightarrow> Inl e | Inr ys \<Rightarrow> insort_lt lt x ys)"

definition human_sort :: "string list \<Rightarrow> py_error + string list" where
  "human_sort lst =
     (case lst of
        [] \<Rightarrow> Inl IndexError
      | _ \<Rightarrow> (case sorted_lt key_lt (map (\<lambda>s. (alphanum_key s, s)) lst) of
                Inl e \<Rightarrow> Inl e
              | Inr ys \<Rightarrow> Inr (map snd ys)))"

subsection \<open>Stable sort and natural order, for the proofs\<close>

fun is_txt :: "tok \<Rightarrow> bool" where
  "is_txt (Txt s) = True"
| "is_txt (Num n) = False"

fun alternating :: "bool \<Rightarrow> tok list \<Rightarrow> bool" where
  "alternating b [] = True"
| "alternating b (t # ts) = (is_txt t = b \<and> alternating (\<not> b) ts)"

fun tok_rank :: "tok \<Rightarrow> string \<times> nat" where
  "tok_rank (Txt s) = (s, 0)"
| "tok_rank (Num n) = ([], n)"

definition natural_rank :: "string \<Rightarrow> (string \<times> nat) list" where
  "natural_rank s = map tok_rank (alphanum_key s)"

subsection \<open>Floating point: IEEE binary64, round to nearest, ties to even\<close>

text \<open>
  A Python \<^verbatim>\<open>float\<close> is modelled by the rational it denotes. An arithmetic operation
  is the exact operation followed by \<open>fl\<close>, the rounding to 53 significant bits.
  The exponent range is not bounded: overflow, subnormal numbers, infinities and NaN
  are outside the model (they need magnitudes beyond \<open>2^1023\<close> or below \<open>2^-1022\<close>).
\<close>

fun ilog2 :: "nat \<Rightarrow> nat" where
  "ilog2 n = (if n < 2 then 0 else Suc (ilog2 (n div 2)))"

declare ilog2.simps [simp del]

definition round_half_even :: "rat \<Rightarrow> int" where
  "round_half_even t =
     (let f = \<lfloor>t\<rfloor>; d = t - of_int f
      in if d < 1 / 2 then f else if 1 / 2 < d then f + 1 else if even f then f else f + 1)"

text \<open>The binary exponent of a positive rational: \<open>2^e \<le> q < 2^(e+1)\<close>.\<close>

definition exponent :: "rat \<Rightarrow> int" where
  "exponent q =
     (if 1 \<le> q then int (ilog2 (nat \<lfloor>q\<rfloor>))
      else (let r = 1 / q; j = ilog2 (nat \<lfloor>r\<rfloor>)
            in if r = 2 ^ j then - int j else - int j - 1))"

definition fl_pos :: "rat \<Rightarrow> rat" where
  "fl_pos q = (let u = 2 powi (exponent q - 52) in of_int (round_half_even (q / u)) * u)"

definition fl :: "rat \<Rightarrow> rat" where
  "fl q = (if q = 0 then 0 else if 0 < q then fl_pos q else - fl_pos (- q))"

text \<open>The unit in the last place of the rounding of \<open>q\<close>, for the proofs.\<close>

definition ulp :: "rat \<Rightarrow> rat" where
  "ulp q = 2 powi (exponent q - 52)"

subsection \<open>\<^verbatim>\<open>ComicArchive.get_size_that_preserves_ratio\<close>\<close>

text \<open>
  \<^verbatim>\<open>
  def round_aspect(number, key):
      return max(min(math.floor(number), math.ceil(number), key=key), 1)
  x, y = size_of_viewport
  width, height = img_size
  aspect = width / height
  if x / y >= aspect:
      x = round_aspect(y * aspect, key=lambda n: abs(aspect - n / y))
  else:
      y = round_aspect(x / aspect, key=lambda n: 0 if n == 0 else abs(aspect - x / n))
  return x, y
  \<close>
  \<^verbatim>\<open>min(a, b, key=k)\<close> returns \<open>b\<close> only when \<open>k(b) < k(a)\<close>. \<^verbatim>\<open>int / int\<close> is the
  correctly rounded quotient; in \<^verbatim>\<open>int * float\<close> and \<^verbatim>\<open>int / float\<close> the integer is
  converted first. Division by zero raises ZeroDivisionError.
\<close>

definition round_aspect :: "rat \<Rightarrow> (int \<Rightarrow> rat) \<Rightarrow> int" where
  "round_aspect number key =
     max (if key \<lceil>number\<rceil> < key \<lfloor>number\<rfloor> then \<lceil>number\<rceil> else \<lfloor>number\<rfloor>) 1"

text \<open>The two \<^verbatim>\<open>key\<close> functions: the distance of a candidate's aspect from the source's.\<close>

definition key_width :: "rat \<Rightarrow> int \<Rightarrow> int \<Rightarrow> rat" where
  "key_width aspect y n = \<bar>fl (aspect - fl (of_int n / of_int y))\<bar>"

definition key_height :: "rat \<Rightarrow> int \<Rightarrow> int \<Rightarrow> rat" where
  "key_height aspect x n = (if n = 0 then 0 else \<bar>fl (aspect - fl (of_int x / of_int n))\<bar>)"

definition get_size_that_preserves_ratio :: "int \<times> int \<Rightarrow> int \<times> int \<Rightarrow> py_error + int \<times> int" where
  "get_size_that_preserves_ratio img_size size_of_viewport =
     (let x = fst size_of_viewport; y = snd size_of_viewport;
          width = fst img_size; height = snd img_size
      in if height = 0 then Inl ZeroDivisionError
         else let aspect = fl (of_int width / of_int height)
           in if y = 0 then Inl ZeroDivisionError
              else if aspect \<le> fl (of_int x / of_int y)
              then Inr (round_aspect (fl (fl (of_int y) * aspect)) (key_width aspect y), y)
              else if aspect = 0 then Inl ZeroDivisionError
              else Inr (x, round_aspect (fl (fl (of_int x) / aspect)) (key_height aspect x)))"

subsection \<open>Images, files and the process state\<close>

text \<open>
  The codec library (PIL) is external: an image is its size, its colour mode and the
  format PIL detected. A file on disk is what \<^verbatim>\<open>Image.open\<close> decodes from it (nothing,
  when PIL cannot identify it), its first 16 bytes and its size in bytes.
\<close>

type_synonym path = string

record image =
  im_size :: "int \<times> int"
  im_mode :: string
  im_format :: "string option"

record filedata =
  decoded :: "image option"
  head16 :: string
  st_size :: nat

datatype node = Dir | File filedata | ZipArchive "(string \<times> filedata) list"

datatype fmt = Png | Jpeg | WebpLossless | WebpLossy

text \<open>The module \<^verbatim>\<open>config\<close>: global, mutable settings.\<close>

record config =
  ignore_page_err :: bool
  samples_count :: int
  processes :: int
  cpu_count :: "int option"
  allowed_page_formats :: "fmt list"

text \<open>
  The state a call can read and write: the file system (in storage order, which is
  the order a directory walk visits it), the class attribute \<^verbatim>\<open>LossyFmt.quality\<close> and
  the module \<^verbatim>\<open>config\<close>.
\<close>

record world =
  files :: "(path \<times> node) list"
  LossyFmt_quality :: int
  cfg :: config

text \<open>
  A call that can raise and has effects returns its result or exception together
  with the state it leaves behind.
\<close>

type_synonym 'a action = "world \<Rightarrow> (py_error + 'a) \<times> world"

definition and_then :: "'a action \<Rightarrow> ('a \<Rightarrow> 'b action) \<Rightarrow> 'b action" where
  "and_then m f = (\<lambda>w. case m w of (Inl e, w') \<Rightarrow> (Inl e, w') | (Inr x, w') \<Rightarrow> f x w')"

definition return :: "'a \<Rightarrow> 'a action" where
  "return x = (\<lambda>w. (Inr x, w))"

definition raise :: "py_error \<Rightarrow> 'a action" where
  "raise e = (\<lambda>w. (Inl e, w))"

definition lift :: "py_error + 'a \<Rightarrow> 'a action" where
  "lift r = (\<lambda>w. (r, w))"

fun for_each :: "('a \<Rightarrow> 'b action) \<Rightarrow> 'a list \<Rightarrow> 'b list action" where
  "for_each f [] = return []"
| "for_each f (x # xs) = and_then (f x) (\<lambda>y. and_then (for_each f xs) (\<lambda>ys. return (y # ys)))"

definition lookup :: "world \<Rightarrow> path \<Rightarrow> node option" where
  "lookup w p = map_of (files w) p"

definition write_node :: "path \<Rightarrow> node \<Rightarrow> world \<Rightarrow> world" where
  "write_node p n w = w\<lparr>files := AList.update p n (files w)\<rparr>"

definition unlink :: "path \<Rightarrow> unit action" where
  "unlink p =
     (\<lambda>w. case lookup w p of
        Some (File f) \<Rightarrow> (Inr (), w\<lparr>files := AList.delete p (files w)\<rparr>)
      | Some (ZipArchive es) \<Rightarrow> (Inr (), w\<lparr>files := AList.delete p (files w)\<rparr>)
      | _ \<Rightarrow> (Inl IOError, w))"


subsection \<open>Paths\<close>

fun parts_from :: "string \<Rightarrow> string \<Rightarrow> string list" where
  "parts_from acc [] = (if acc = [] then [] else [rev acc])"
| "parts_from acc (c # cs) =
     (if c = CHR ''/'' then (if acc = [] then parts_from [] cs else rev acc # parts_from [] cs)
      else parts_from (c # acc) cs)"

definition path_parts :: "path \<Rightarrow> string list" where
  "path_parts p = (case p of c # cs \<Rightarrow> (if c = CHR ''/'' then ''/'' # parts_from [] p
                                          else parts_from [] p)
                           | [] \<Rightarrow> [])"

fun path_of_parts :: "string list \<Rightarrow> path" where
  "path_of_parts [] = ''.''"
| "path_of_parts [a] = a"
| "path_of_parts (a # b # cs) = (if a = ''/'' then a @ path_of_parts (b # cs)
                                 else a @ ''/'' @ path_of_parts (b # cs))"

definition joinpath :: "path \<Rightarrow> string \<Rightarrow> path" where
  "joinpath d n = path_of_parts (path_parts d @ path_parts n)"

definition path_name :: "path \<Rightarrow> string" where
  "path_name p = (case path_parts p of [] \<Rightarrow> [] | ps \<Rightarrow> (if last ps = ''/'' then [] else last ps))"

text \<open>\<^verbatim>\<open>stem\<close>: the name up to its last dot, unless that dot is first or last.\<close>

definition path_stem :: "path \<Rightarrow> string" where
  "path_stem p =
     (let n = path_name p; suffix = takeWhile (\<lambda>c. c \<noteq> CHR ''.'') (rev n);
          i = length n - length suffix - 1
      in if CHR ''.'' \<in> set n \<and> 0 < i \<and> suffix \<noteq> [] then take i n else n)"

definition path_parent :: "path \<Rightarrow> path" where
  "path_parent p = (case path_parts p of [] \<Rightarrow> ''.'' | [a] \<Rightarrow> (if a = ''/'' then a else ''.'')
                                        | ps \<Rightarrow> path_of_parts (butlast ps))"

definition norm_path :: "string \<Rightarrow> path" where
  "norm_path s = path_of_parts (path_parts s)"

definition exists :: "world \<Rightarrow> path \<Rightarrow> bool" where
  "exists w p = (lookup w p \<noteq> None)"

definition is_dir :: "world \<Rightarrow> path \<Rightarrow> bool" where
  "is_dir w p = (lookup w p = Some Dir)"

definition is_file :: "world \<Rightarrow> path \<Rightarrow> bool" where
  "is_file w p = (case lookup w p of Some (File f) \<Rightarrow> True | Some (ZipArchive es) \<Rightarrow> True | _ \<Rightarrow> False)"


subsection \<open>\<^verbatim>\<open>Page\<close>\<close>

record page =
  fp :: path
  rel_path :: path
  name :: string
  stem :: string
  fmt_field :: "fmt option"
  img_field :: "image option"

text \<open>
  \<open>fmt_field\<close> is \<^verbatim>\<open>_fmt\<close>; \<open>img_field\<close> is \<^verbatim>\<open>_img\<close> while the page is open and \<open>None\<close>
  when \<^verbatim>\<open>_closed\<close>.

  \<^verbatim>\<open>reCBZ2/formats.py\<close>, \<^verbatim>\<open>reCBZ2/epub.py\<close> and \<^verbatim>\<open>reCBZ2/__init__.py\<close> are not among
  the sources. What the code reads from them is a parameter: for each format its
  \<^verbatim>\<open>name\<close>, \<^verbatim>\<open>desc\<close>, first extension and encoder (\<^verbatim>\<open>save\<close>, which sees the class
  attribute \<^verbatim>\<open>LossyFmt.quality\<close>), the table \<^verbatim>\<open>FormatDict\<close>, the two ebook builders, the
  constant \<^verbatim>\<open>CACHE_PREFIX\<close>; and from the platform \<^verbatim>\<open>tempfile.gettempdir()\<close> and the
  order in which the tasks of a pool of a given size complete.
\<close>

record package =
  fmt_name :: "fmt \<Rightarrow> string"
  fmt_desc :: "fmt \<Rightarrow> string"
  fmt_ext :: "fmt \<Rightarrow> string"
  fmt_save :: "fmt \<Rightarrow> int \<Rightarrow> image \<Rightarrow> filedata"
  FormatDict :: "string \<Rightarrow> fmt option"
  multi_chapter_epub :: "string \<Rightarrow> page list list \<Rightarrow> path action"
  single_chapter_epub :: "string \<Rightarrow> page list \<Rightarrow> path action"
  CACHE_PREFIX :: string
  gettempdir :: path
  completion_order :: "nat \<Rightarrow> nat list"

text \<open>
  \<^verbatim>\<open>Page.__init__\<close>: the path relative to the archive's own cache directory, which is
  the directory below the one whose name contains \<^verbatim>\<open>CACHE_PREFIX\<close>.
\<close>

definition Page :: "package \<Rightarrow> path \<Rightarrow> py_error + page" where
  "Page pk file_name =
     (let ps = path_parts file_name
      in case filter (sublist (CACHE_PREFIX pk)) ps of
           [] \<Rightarrow> Inl IndexError
         | u # us \<Rightarrow>
             (let global_cache = path_parts (gettempdir pk) @ [u]
              in if \<not> prefix global_cache ps then Inl (ValueError ''is not in the subpath'')
                 else case drop (length global_cache) ps of
                        [] \<Rightarrow> Inl IndexError
                      | b # rest \<Rightarrow>
                          Inr \<lparr>fp = norm_path file_name, rel_path = path_of_parts rest,
                               name = path_name file_name, stem = path_stem file_name,
                               fmt_field = None, img_field = None\<rparr>))"

definition Image_open :: "world \<Rightarrow> path \<Rightarrow> py_error + image" where
  "Image_open w p =
     (case lookup w p of
        Some (File f) \<Rightarrow> (case decoded f of Some im \<Rightarrow> Inr im | None \<Rightarrow> Inl IOError)
      | _ \<Rightarrow> Inl IOError)"

text \<open>
  The property \<^verbatim>\<open>img\<close>: opens the file when the page is closed. The page is returned
  too, since reading the property can change it.
\<close>

definition get_img :: "world \<Rightarrow> page \<Rightarrow> (py_error + image) \<times> page" where
  "get_img w pg =
     (case img_field pg of
        Some im \<Rightarrow> (Inr im, pg)
      | None \<Rightarrow> (case Image_open w (fp pg) of
                   Inl e \<Rightarrow> (Inl e, pg)
                 | Inr im \<Rightarrow> (Inr im, pg\<lparr>img_field := Some im\<rparr>)))"

definition read16_last :: "world \<Rightarrow> path \<Rightarrow> py_error + string" where
  "read16_last w p =
     (case lookup w p of
        Some (File f) \<Rightarrow> (let h = take 16 (head16 f) in Inr (if h = [] then [] else [last h]))
      | _ \<Rightarrow> Inl IOError)"

definition get_fmt :: "world \<Rightarrow> page \<Rightarrow> (py_error + fmt) \<times> page" where
  "get_fmt w pg =
     (case fmt_field pg of
        Some f \<Rightarrow> (Inr f, pg)
      | None \<Rightarrow>
          (case get_img w pg of
             (Inl e, pg') \<Rightarrow> (Inl e, pg')
           | (Inr im, pg') \<Rightarrow>
               (case im_format im of
                  None \<Rightarrow> (Inl KeyError, pg')
                | Some pillow_format \<Rightarrow>
                    if pillow_format = ''PNG'' then (Inr Png, pg')
                    else if pillow_format = ''JPEG'' then (Inr Jpeg, pg')
                    else if pillow_format = ''WEBP'' then
                      (case read16_last w (fp pg') of
                         Inl e \<Rightarrow> (Inl e, pg')
                       | Inr b \<Rightarrow> (Inr (if b = ''L'' then WebpLossless else WebpLossy), pg'))
                    else (Inl KeyError, pg'))))"

definition landscape :: "world \<Rightarrow> page \<Rightarrow> (py_error + bool) \<times> page" where
  "landscape w pg =
     (case get_img w pg of
        (Inl e, pg') \<Rightarrow> (Inl e, pg')
      | (Inr im, pg') \<Rightarrow> (Inr (snd (im_size im) < fst (im_size im)), pg'))"

definition save :: "package \<Rightarrow> page \<Rightarrow> path \<Rightarrow> page action" where
  "save pk pg dest =
     (\<lambda>w. case get_fmt w pg of
        (Inl e, pg1) \<Rightarrow> (Inl e, w)
      | (Inr f, pg1) \<Rightarrow>
          (case get_img w pg1 of
             (Inl e, pg2) \<Rightarrow> (Inl e, w)
           | (Inr im, pg2) \<Rightarrow>
               (Inr (pg2\<lparr>fp := dest, name := path_name dest, stem := path_stem dest,
                        img_field := None\<rparr>),
                write_node dest (File (fmt_save pk f (LossyFmt_quality w) im)) w)))"

text \<open>PIL: \<^verbatim>\<open>convert\<close> and \<^verbatim>\<open>resize\<close> return a new image; a size below 1 is refused.\<close>

definition img_convert :: "image \<Rightarrow> string \<Rightarrow> image" where
  "img_convert im m = im\<lparr>im_mode := m, im_format := None\<rparr>"

definition img_resize :: "image \<Rightarrow> int \<times> int \<Rightarrow> py_error + image" where
  "img_resize im sz =
     (if im_size im = sz then Inr (im\<lparr>im_format := None\<rparr>)
      else if fst sz < 1 \<or> snd sz < 1 then Inl (ValueError ''height and width must be > 0'')
      else Inr (im\<lparr>im_size := sz, im_format := None\<rparr>))"

subsection \<open>\<^verbatim>\<open>ComicArchive\<close>: state and the per-page conversion\<close>

text \<open>The options snapshot \<^verbatim>\<open>dict(self._page_opt)\<close>.\<close>

record options =
  format :: "fmt option"
  quality :: int
  size_opt :: "int \<times> int"
  keep_ratio :: bool
  grayscale :: bool
  noup :: bool
  nodown :: bool

record archive =
  src_fp :: path
  page_opt :: options
  index :: "page list"
  chapter_lengths :: "nat list"
  bad_files :: "path list"
  cachedir :: path


definition VALID_BOOK_FORMATS :: "string list" where
  "VALID_BOOK_FORMATS = [''cbz'', ''zip'', ''epub'', ''mobi'']"

definition chapter_prefix :: string where
  "chapter_prefix = ''v''"

text \<open>
  The \<^verbatim>\<open>except\<close> clauses of \<^verbatim>\<open>convert_page_worker\<close>: IOError, UnidentifiedImageError
  (an OSError) and KeyError are swallowed when \<^verbatim>\<open>config.ignore_page_err\<close> is set.
\<close>

definition open_failed :: "py_error \<Rightarrow> page \<Rightarrow> (bool \<times> page) action" where
  "open_failed e pg =
     (\<lambda>w. if e = IOError \<or> e = KeyError
           then (if ignore_page_err (cfg w) then (Inr (False, pg), w) else (Inl e, w))
           else (Inl e, w))"

text \<open>
  The resize of \<^verbatim>\<open>convert_page_worker\<close> (lines 94 to 114), on the image \<^verbatim>\<open>img\<close> the
  earlier steps produced:
  \<^verbatim>\<open>
  if all(options["size"]):
      width, height = img.size
      new_size = options["size"]
      # preserve aspect ratio for landscape images
      if page.landscape:
          new_size = new_size[::-1]
      n_width, n_height = new_size
      if options["keep_ratio"]:
          resize_size = self.get_size_that_preserves_ratio(
              img_size=(width, height), size_of_viewport=new_size)
      else:
          resize_size = new_size
      # downscaling
      if width > n_width and height > n_height and not options["nodown"]:
          img = img.resize((resize_size), config.RESAMPLE_TYPE)
      # upscaling
      elif not options["noup"]:
          img = img.resize((resize_size), config.RESAMPLE_TYPE)
  \<close>
\<close>

definition resize_step :: "world \<Rightarrow> page \<Rightarrow> options \<Rightarrow> image \<Rightarrow> py_error + image" where
  "resize_step w pg opts img =
     (if fst (size_opt opts) \<noteq> 0 \<and> snd (size_opt opts) \<noteq> 0 then
        (let width = fst (im_size img); height = snd (im_size img)
         in case landscape w pg of
              (Inl e, pg1) \<Rightarrow> Inl e
            | (Inr is_landscape, pg1) \<Rightarrow>
                (let new_size = (if is_landscape then (snd (size_opt opts), fst (size_opt opts))
                                 else size_opt opts);
                     n_width = fst new_size; n_height = snd new_size
                 in case (if keep_ratio opts
                          then get_size_that_preserves_ratio (width, height) new_size
                          else Inr new_size) of
                      Inl e \<Rightarrow> Inl e
                    | Inr resize_size \<Rightarrow>
                        if n_width < width \<and> n_height < height \<and> \<not> nodown opts
                        then img_resize img resize_size
                        else if \<not> noup opts then img_resize img resize_size
                        else Inr img))
      else Inr img)"

text \<open>
  \<^verbatim>\<open>convert_page_worker(self, source, options, savedir=None)\<close>, line by line. The
  decorator \<^verbatim>\<open>worker_sigint_CTRL_C\<close> only acts on a keyboard interrupt, which is not
  modelled.
\<close>

definition convert_page_worker ::
  "package \<Rightarrow> page \<Rightarrow> options \<Rightarrow> path option \<Rightarrow> (bool \<times> page) action" where
  "convert_page_worker pk source opts savedir =
     (\<lambda>w. case Page pk (fp source) of
        Inl e \<Rightarrow> (Inl e, w)
      | Inr page0 \<Rightarrow>
      (case get_fmt w page0 of
        (Inl e, page1) \<Rightarrow> open_failed e page1 w
      | (Inr source_fmt, page1) \<Rightarrow>
      (case get_img w page1 of
        (Inl e, page2) \<Rightarrow> open_failed e page2 w
      | (Inr img, page2) \<Rightarrow>
      (let new_fmt = (case format opts of Some f \<Rightarrow> f | None \<Rightarrow> source_fmt);
           page3 = page2\<lparr>fmt_field := Some new_fmt\<rparr>;
           img1 = (if new_fmt = Jpeg \<and> im_mode img \<noteq> ''RGB'' then img_convert img ''RGB'' else img);
           img2 = (if grayscale opts then img_convert img1 ''L'' else img1)
       in case resize_step w page3 opts img2 of
            Inl e \<Rightarrow> (Inl e, w)
          | Inr img3 \<Rightarrow>
          (let w1 = w\<lparr>LossyFmt_quality := quality opts\<rparr>;
               page5 = page3\<lparr>img_field := Some img3\<rparr>;
               ext = fmt_ext pk new_fmt;
               new_fp = (case savedir of
                           Some d \<Rightarrow> joinpath d (stem page5 @ ext)
                         | None \<Rightarrow> joinpath (path_parent (fp page5)) (stem page5 @ ext))
           in case save pk page5 new_fp w1 of
                (Inl e, w2) \<Rightarrow> (Inl e, w2)
              | (Inr page6, w2) \<Rightarrow> (Inr (True, page6), w2))))))"

subsection \<open>\<^verbatim>\<open>util.map_workers\<close>\<close>

text \<open>
  \<^verbatim>\<open>config.pcount()\<close>. \<^verbatim>\<open>os.cpu_count()\<close> is \<^verbatim>\<open>None\<close> or a number.
\<close>

definition pcount :: "config \<Rightarrow> int" where
  "pcount c =
     (let default_value = 4
      in if 0 < processes c then processes c
         else case cpu_count c of
                None \<Rightarrow> default_value
              | Some logical_cores \<Rightarrow>
                  if logical_cores = 1 \<or> logical_cores = 2 then logical_cores
                  else logical_cores - 1)"

text \<open>
  \<^verbatim>\<open>map(func, tasks)\<close> is a one-shot iterator: it yields the results in order, stops at
  the first exception, and is empty when iterated a second time. \<^verbatim>\<open>Pool.map\<close> and
  \<^verbatim>\<open>ThreadPool.map\<close> return a list.
\<close>

datatype 'b results = MapObject "'b list" | ResultList "'b list"

fun first_pass :: "'b results \<Rightarrow> 'b list" where
  "first_pass (MapObject rs) = rs"
| "first_pass (ResultList rs) = rs"

fun second_pass :: "'b results \<Rightarrow> 'b list" where
  "second_pass (MapObject rs) = []"
| "second_pass (ResultList rs) = rs"

fun map_in_order ::
  "('a \<Rightarrow> 's \<Rightarrow> (py_error + 'b) \<times> 's) \<Rightarrow> 'a list \<Rightarrow> 's \<Rightarrow> (py_error + 'b list) \<times> 's" where
  "map_in_order func [] s = (Inr [], s)"
| "map_in_order func (x # xs) s =
     (case func x s of
        (Inl e, s1) \<Rightarrow> (Inl e, s1)
      | (Inr y, s1) \<Rightarrow>
          (case map_in_order func xs s1 of
             (Inl e, s2) \<Rightarrow> (Inl e, s2)
           | (Inr ys, s2) \<Rightarrow> (Inr (y # ys), s2)))"

text \<open>
  A pool runs every task once, each in the state the tasks completed before it left
  (a task is taken as one step). The order of completion is any list of indices: an
  index out of range or already done is skipped, and the tasks it does not mention
  complete last. Each result is stored in the slot of its task; the call returns the
  slots in task order, or raises the first exception to arrive.
\<close>

fun run_tasks ::
  "('a \<Rightarrow> 's \<Rightarrow> (py_error + 'b) \<times> 's) \<Rightarrow> 'a list \<Rightarrow> nat list \<Rightarrow>
   (py_error + 'b) option list \<times> py_error option \<times> 's \<Rightarrow>
   (py_error + 'b) option list \<times> py_error option \<times> 's" where
  "run_tasks func tasks [] st = st"
| "run_tasks func tasks (i # order) (slots, err, s) =
     (if i < length tasks \<and> slots ! i = None then
        (case func (tasks ! i) s of
           (r, s1) \<Rightarrow>
             run_tasks func tasks order
               (slots[i := Some r],
                (case r of Inl e \<Rightarrow> (if err = None then Some e else err) | Inr y \<Rightarrow> err), s1))
      else run_tasks func tasks order (slots, err, s))"

definition slot_value :: "(py_error + 'b) option \<Rightarrow> 'b option" where
  "slot_value x = (case x of Some (Inr y) \<Rightarrow> Some y | _ \<Rightarrow> None)"

definition pool_map ::
  "nat list \<Rightarrow> ('a \<Rightarrow> 's \<Rightarrow> (py_error + 'b) \<times> 's) \<Rightarrow> 'a list \<Rightarrow> 's \<Rightarrow> (py_error + 'b list) \<times> 's" where
  "pool_map order func tasks s =
     (case run_tasks func tasks (order @ [0 ..< length tasks])
             (replicate (length tasks) None, None, s) of
        (slots, Some e, s1) \<Rightarrow> (Inl e, s1)
      | (slots, None, s1) \<Rightarrow> (Inr (List.map_filter slot_value slots), s1))"

text \<open>
  \<^verbatim>\<open>
  def map_workers(func, tasks, multithread=False):
      pcount = min(len(tasks), config.pcount())
      if pcount == 1:
          return map(func, tasks)
      elif multithread:
          with ThreadPool(processes=pcount) as Tpool:
              return Tpool.map(func, tasks)
      else:
          with Pool(processes=pcount, initializer=init_pool) as MPpool:
              return MPpool.map(func, tasks)
  \<close>
  A pool of fewer than one process is refused with ValueError. Keyboard interrupts
  are not modelled.
\<close>

definition map_workers ::
  "package \<Rightarrow> config \<Rightarrow> ('a \<Rightarrow> 's \<Rightarrow> (py_error + 'b) \<times> 's) \<Rightarrow> 'a list \<Rightarrow> bool \<Rightarrow> 's \<Rightarrow>
   (py_error + 'b results) \<times> 's" where
  "map_workers pk c func tasks multithread s =
     (let n_proc = min (int (length tasks)) (pcount c)
      in if n_proc = 1 then
           (case map_in_order func tasks s of
              (Inl e, s1) \<Rightarrow> (Inl e, s1)
            | (Inr rs, s1) \<Rightarrow> (Inr (MapObject rs), s1))
         else if n_proc < 1 then (Inl (ValueError ''Number of processes must be at least 1''), s)
         else if multithread then
           (case pool_map (completion_order pk (length tasks)) func tasks s of
              (Inl e, s1) \<Rightarrow> (Inl e, s1)
            | (Inr rs, s1) \<Rightarrow> (Inr (ResultList rs), s1))
         else
           (case pool_map (completion_order pk (length tasks)) func tasks s of
              (Inl e, s1) \<Rightarrow> (Inl e, s1)
            | (Inr rs, s1) \<Rightarrow> (Inr (ResultList rs), s1)))"

subsection \<open>\<^verbatim>\<open>ComicArchive.extract\<close>, \<^verbatim>\<open>fetch_pages\<close>, \<^verbatim>\<open>fetch_chapters\<close>\<close>

text \<open>
  Lines 209 to 214 of \<^verbatim>\<open>extract\<close>:
  \<^verbatim>\<open>
  if count > 0:
      # select x images from the middle of the archive, in increments of 2
      if count * 2 > len(compressed_files):
          raise ValueError(f"{self.fp} is smaller than samples * 2")
      delta = int(len(compressed_files) / 2)
      compressed_files = compressed_files[delta - count : delta + count : 2]
  \<close>
  \<^verbatim>\<open>int(n / 2)\<close> is \<open>n div 2\<close> for every length a list can have (below \<open>2^53\<close>).
\<close>

definition select_sample :: "string list \<Rightarrow> int \<Rightarrow> py_error + string list" where
  "select_sample compressed_files count' =
     (if 0 < count' then
        (if int (length compressed_files) < count' * 2
         then Inl (ValueError ''is smaller than samples * 2'')
         else (let delta = int (length compressed_files) div 2
               in Inr (py_slice2 compressed_files (delta - count') (delta + count'))))
      else Inr compressed_files)"

text \<open>
  \<^verbatim>\<open>ZipFile.extract(member, path)\<close>: a member whose name ends with a slash is a
  directory. Member names are taken as relative, normalised paths.
\<close>

definition zip_extract :: "(string \<times> filedata) list \<Rightarrow> path \<Rightarrow> string \<Rightarrow> world \<Rightarrow> world" where
  "zip_extract entries dir member w =
     (if member \<noteq> [] \<and> last member = CHR ''/'' then write_node (joinpath dir member) Dir w
      else case map_of entries member of
             Some d \<Rightarrow> write_node (joinpath dir member) (File d) w
           | None \<Rightarrow> w)"

text \<open>\<^verbatim>\<open>filter(Path.is_file, Path(dir).rglob("*"))\<close>, in storage order.\<close>

definition rglob_files :: "world \<Rightarrow> path \<Rightarrow> path list" where
  "rglob_files w dir =
     filter (\<lambda>p. strict_prefix (path_parts dir) (path_parts p) \<and> is_file w p) (map fst (files w))"

fun collect :: "('a \<Rightarrow> py_error + 'b) \<Rightarrow> 'a list \<Rightarrow> py_error + 'b list" where
  "collect f [] = Inr []"
| "collect f (x # xs) =
     (case f x of
        Inl e \<Rightarrow> Inl e
      | Inr y \<Rightarrow> (case collect f xs of Inl e \<Rightarrow> Inl e | Inr ys \<Rightarrow> Inr (y # ys)))"

text \<open>
  \<^verbatim>\<open>extract(self, count=0, raw=False)\<close> (\<open>extract\<close> is a keyword of Isabelle). The result holds both \<^verbatim>\<open>sorted_paths\<close> and
  \<^verbatim>\<open>sorted_pages\<close>; \<^verbatim>\<open>raw\<close> selects which of the two the caller gets.
\<close>

definition extract_pages :: "package \<Rightarrow> archive \<Rightarrow> int \<Rightarrow> (path list \<times> page list) action" where
  "extract_pages pk self count' =
     (\<lambda>w. case lookup w (src_fp self) of
        None \<Rightarrow> (Inl IOError, w)
      | Some Dir \<Rightarrow> (Inl IOError, w)
      | Some (File f) \<Rightarrow> (Inl (ValueError ''not a zip file''), w)
      | Some (ZipArchive entries) \<Rightarrow>
          (let compressed_files = map fst entries
           in if length compressed_files < 1 then (Inl AssertionError, w)
              else case select_sample compressed_files count' of
                     Inl e \<Rightarrow> (Inl e, w)
                   | Inr selected \<Rightarrow>
                       (let w1 = fold (zip_extract entries (cachedir self)) selected w;
                            raw_paths = rglob_files w1 (cachedir self)
                        in case human_sort raw_paths of
                             Inl e \<Rightarrow> (Inl e, w1)
                           | Inr sorted_paths \<Rightarrow>
                               (case collect (Page pk) sorted_paths of
                                  Inl e \<Rightarrow> (Inl e, w1)
                                | Inr sorted_pages \<Rightarrow> (Inr (sorted_paths, sorted_pages), w1)))))"

definition fetch_pages :: "package \<Rightarrow> archive \<Rightarrow> (archive \<times> page list) action" where
  "fetch_pages pk self =
     (if length (index self) = 0
      then and_then (extract_pages pk self 0) (\<lambda>r. return (self\<lparr>index := snd r\<rparr>, snd r))
      else return (self, index self))"

fun split_chapters :: "nat list \<Rightarrow> 'a list \<Rightarrow> 'a list list" where
  "split_chapters [] index_copy = []"
| "split_chapters (l # ls) index_copy = take l index_copy # split_chapters ls (drop l index_copy)"

definition fetch_chapters :: "package \<Rightarrow> archive \<Rightarrow> (archive \<times> page list list) action" where
  "fetch_chapters pk self =
     and_then (fetch_pages pk self) (\<lambda>r.
       let self1 = fst r; index_copy = snd r;
           self2 = (if length (chapter_lengths self1) = 0
                    then self1\<lparr>chapter_lengths := [length index_copy]\<rparr> else self1)
       in return (self2, split_chapters (chapter_lengths self2) index_copy))"

subsection \<open>\<^verbatim>\<open>add_chapter\<close>, \<^verbatim>\<open>convert_pages\<close>, \<^verbatim>\<open>remove_page\<close>\<close>

definition py_slice_from :: "'a list \<Rightarrow> int \<Rightarrow> 'a list" where
  "py_slice_from xs a = drop (py_slice_bound (length xs) a) xs"

definition py_slice_to :: "'a list \<Rightarrow> int \<Rightarrow> 'a list" where
  "py_slice_to xs b = take (py_slice_bound (length xs) b) xs"

text \<open>
  \<^verbatim>\<open>add_chapter(self, second_archive, start=None, end=None)\<close>. \<^verbatim>\<open>if start:\<close> and
  \<^verbatim>\<open>if end:\<close> skip \<^verbatim>\<open>None\<close> and 0. The assertion under \<^verbatim>\<open>if end:\<close> tests
  \<^verbatim>\<open>type(start)\<close>. The two archives are distinct objects.
\<close>

definition add_chapter ::
  "package \<Rightarrow> archive \<Rightarrow> archive \<Rightarrow> int option \<Rightarrow> int option \<Rightarrow>
   (archive \<times> archive \<times> page list) action" where
  "add_chapter pk self second_archive start end' =
     and_then (fetch_pages pk second_archive) (\<lambda>r.
       let second1 = fst r;
           chapter0 = snd r;
           chapter1 = (case start of
                         Some a \<Rightarrow> (if a \<noteq> 0 then py_slice_from chapter0 a else chapter0)
                       | None \<Rightarrow> chapter0)
       in and_then
            (case end' of
               Some b \<Rightarrow>
                 (if b \<noteq> 0
                  then (if start = None then raise (ValueError ''end must be an integer'')
                        else return (py_slice_to chapter1 b))
                  else return chapter1)
             | None \<Rightarrow> return chapter1)
            (\<lambda>new_chapter.
               and_then (fetch_chapters pk self) (\<lambda>r1.
                 let self1 = fst r1;
                     self2 = self1\<lparr>chapter_lengths := chapter_lengths self1 @ [length new_chapter],
                                   index := index self1 @ new_chapter\<rparr>
                 in and_then (fetch_pages pk self2) (\<lambda>r2. return (fst r2, second1, snd r2)))))"

definition get_format_class :: "package \<Rightarrow> string option \<Rightarrow> py_error + fmt option" where
  "get_format_class pk nm =
     (case nm of
        None \<Rightarrow> Inr None
      | Some n \<Rightarrow>
          (if n = [] then Inr None
           else case FormatDict pk n of
                  Some f \<Rightarrow> Inr (Some f)
                | None \<Rightarrow> Inl (ValueError ''Invalid format name'')))"

text \<open>
  \<^verbatim>\<open>
  worker = partial(self.convert_page_worker, options=options)
  results = map_workers(worker, self.fetch_pages())
  self._bad_files = [item[1].fp for item in results if item[0] is False]
  self._index = [item[1] for item in results if item[0]]
  return tuple(self._index)
  \<close>
  \<^verbatim>\<open>results\<close> is traversed twice.
\<close>

definition convert_pages ::
  "package \<Rightarrow> archive \<Rightarrow> string option \<Rightarrow> int option \<Rightarrow> bool option \<Rightarrow> (int \<times> int) option \<Rightarrow>
   (archive \<times> page list) action" where
  "convert_pages pk self fmt_arg quality_arg grayscale_arg size_arg =
     (case (case fmt_arg of
              None \<Rightarrow> Inr (format (page_opt self))
            | Some n \<Rightarrow> get_format_class pk (Some n)) of
        Inl e \<Rightarrow> raise e
      | Inr f \<Rightarrow>
          (let opts = (page_opt self)
                 \<lparr>format := f,
                  quality := (case quality_arg of None \<Rightarrow> quality (page_opt self) | Some q \<Rightarrow> q),
                  size_opt := (case size_arg of None \<Rightarrow> size_opt (page_opt self) | Some z \<Rightarrow> z),
                  grayscale := (case grayscale_arg of None \<Rightarrow> grayscale (page_opt self)
                                                    | Some g \<Rightarrow> g)\<rparr>
           in and_then (fetch_pages pk self) (\<lambda>r.
                and_then
                  (\<lambda>w. map_workers pk (cfg w) (\<lambda>p. convert_page_worker pk p opts None) (snd r)
                          False w)
                  (\<lambda>results.
                     let self1 = (fst r)
                           \<lparr>bad_files := map (\<lambda>item. fp (snd item))
                                           (filter (\<lambda>item. \<not> fst item) (first_pass results)),
                            index := map snd (filter fst (second_pass results))\<rparr>
                     in return (self1, index self1)))))"

text \<open>\<^verbatim>\<open>remove_page(self, index)\<close> is \<^verbatim>\<open>self._index.pop(index)\<close>.\<close>

definition remove_page :: "archive \<Rightarrow> int \<Rightarrow> py_error + archive \<times> page" where
  "remove_page self i =
     (let n = int (length (index self)); j = (if i < 0 then n + i else i)
      in if 0 \<le> j \<and> j < n
         then Inr (self\<lparr>index := take (nat j) (index self) @ drop (Suc (nat j)) (index self)\<rparr>,
                   index self ! nat j)
         else Inl IndexError)"

text \<open>The invariant of an archive: the chapter lengths partition the index.\<close>

definition chapters_partition_index :: "archive \<Rightarrow> bool" where
  "chapters_partition_index a =
     (chapter_lengths a = [] \<or> index a = [] \<or>
      (sum_list (chapter_lengths a) = length (index a) \<and>
       concat (split_chapters (chapter_lengths a) (index a)) = index a))"

subsection \<open>\<^verbatim>\<open>ComicArchive.compute_fmt_sizes\<close>\<close>




subsection \<open>\<^verbatim>\<open>util.write_zip\<close>, \<^verbatim>\<open>util.write_epub\<close>, \<^verbatim>\<open>ComicArchive.write_archive\<close>\<close>

definition digit_char :: "nat \<Rightarrow> char" where
  "digit_char d = char_of (48 + d)"

fun str_nat :: "nat \<Rightarrow> string" where
  "str_nat n = (if n < 10 then [digit_char n] else str_nat (n div 10) @ [digit_char (n mod 10)])"

declare str_nat.simps [simp del]

text \<open>\<^verbatim>\<open>f"{n:0{w}d}"\<close>: zeros on the left up to the width; a longer number is not cut.\<close>

definition zero_pad :: "nat \<Rightarrow> nat \<Rightarrow> string" where
  "zero_pad w n = replicate (w - length (str_nat n)) (CHR ''0'') @ str_nat n"

text \<open>
  \<^verbatim>\<open>
  lead_zeroes = len(str(len(chapters)))
  for i, chapter in enumerate(chapters):
      for page in chapter:
          if len(chapters) > 1:  # no parent if there's only one chapter
              dest = Path(f"{chapter_prefix}{i+1:0{lead_zeroes}d}") / page.rel_path
          else:
              dest = Path(page.rel_path)
          new_zip.write(page.fp, dest, ...)
  \<close>
  \<open>zip_arcnames\<close> is the sequence of \<open>(page.fp, dest)\<close> the two loops visit.
\<close>

definition zip_arcnames :: "page list list \<Rightarrow> string \<Rightarrow> (path \<times> path) list" where
  "zip_arcnames chapters pre =
     (let lead_zeroes = length (str_nat (length chapters))
      in concat (map (\<lambda>ic. map (\<lambda>pg. (fp pg,
                                   if 1 < length chapters
                                   then joinpath (pre @ zero_pad lead_zeroes (fst ic + 1)) (rel_path pg)
                                   else norm_path (rel_path pg)))
                           (snd ic))
                     (enumerate 0 chapters)))"

text \<open>\<^verbatim>\<open>ZipFile.write(filename, arcname)\<close> appends the file's content under \<^verbatim>\<open>arcname\<close>.\<close>

definition zip_write :: "path \<Rightarrow> path \<times> path \<Rightarrow> unit action" where
  "zip_write save_path sd =
     (\<lambda>w. case lookup w (fst sd) of
        Some (File d) \<Rightarrow>
          (case lookup w save_path of
             Some (ZipArchive es) \<Rightarrow> (Inr (), write_node save_path (ZipArchive (es @ [(snd sd, d)])) w)
           | _ \<Rightarrow> (Inl IOError, w))
      | _ \<Rightarrow> (Inl IOError, w))"

definition write_zip :: "path \<Rightarrow> page list list \<Rightarrow> string \<Rightarrow> path action" where
  "write_zip save_path chapters pre =
     and_then (\<lambda>w. (Inr (), write_node save_path (ZipArchive []) w)) (\<lambda>u.
       and_then (for_each (zip_write save_path) (zip_arcnames chapters pre)) (\<lambda>us.
         return save_path))"

definition write_epub :: "package \<Rightarrow> path \<Rightarrow> page list list \<Rightarrow> path action" where
  "write_epub pk save_path chapters =
     (let pages = concat chapters; title = path_stem save_path
      in if 1 < length chapters then multi_chapter_epub pk title chapters
         else single_chapter_epub pk title pages)"

text \<open>
  \<^verbatim>\<open>
  def write_archive(self, book_format="cbz", file_name: str = "") -> str:
      if book_format not in self.VALID_BOOK_FORMATS:
          raise ValueError(f"Invalid format '{book_format}'")
      if file_name != "":
          parent = Path(file_name).parents[0]
          if not (parent.exists() and parent.is_dir()):
              raise ValueError(f"Parent folder '{parent}' does not exist")
          new_path = Path(f"{file_name}.{book_format}")
      else:
          new_path = Path(f"{self.fp.stem}.{book_format}")
      if new_path.exists():
          new_path.unlink()
      new_path = str(new_path)
      if book_format == "cbz":
          return write_zip(new_path, self.fetch_chapters(), self.chapter_prefix)
      elif book_format == "zip":
          return write_zip(new_path, self.fetch_chapters(), self.chapter_prefix)
      elif book_format == "epub":
          return write_epub(new_path, self.fetch_chapters())
      elif book_format == "mobi":
          raise NotImplementedError
      else:
          raise ValueError
  \<close>
\<close>

definition destination :: "archive \<Rightarrow> string \<Rightarrow> string \<Rightarrow> path" where
  "destination self book_format file_name =
     (if file_name \<noteq> [] then norm_path (file_name @ ''.'' @ book_format)
      else norm_path (path_stem (src_fp self) @ ''.'' @ book_format))"

definition write_container :: "package \<Rightarrow> archive \<Rightarrow> string \<Rightarrow> path \<Rightarrow> (archive \<times> path) action" where
  "write_container pk self book_format new_path =
     (if book_format = ''cbz'' then
        and_then (fetch_chapters pk self) (\<lambda>r.
          and_then (write_zip new_path (snd r) chapter_prefix) (\<lambda>p. return (fst r, p)))
      else if book_format = ''zip'' then
        and_then (fetch_chapters pk self) (\<lambda>r.
          and_then (write_zip new_path (snd r) chapter_prefix) (\<lambda>p. return (fst r, p)))
      else if book_format = ''epub'' then
        and_then (fetch_chapters pk self) (\<lambda>r.
          and_then (write_epub pk new_path (snd r)) (\<lambda>p. return (fst r, p)))
      else if book_format = ''mobi'' then raise NotImplementedError
      else raise (ValueError []))"

definition write_archive :: "package \<Rightarrow> archive \<Rightarrow> string \<Rightarrow> string \<Rightarrow> (archive \<times> path) action" where
  "write_archive pk self book_format file_name =
     (if book_format \<notin> set VALID_BOOK_FORMATS then raise (ValueError ''Invalid format'')
      else and_then
             (\<lambda>w. if file_name \<noteq> [] \<and>
                      \<not> (exists w (path_parent file_name) \<and> is_dir w (path_parent file_name))
                   then (Inl (ValueError ''Parent folder does not exist''), w)
                   else (Inr (destination self book_format file_name), w))
             (\<lambda>new_path.
                and_then (\<lambda>w. if exists w new_path then unlink new_path w else (Inr (), w)) (\<lambda>u.
                  write_container pk self book_format new_path)))"

subsection \<open>A concrete package, archive and file system\<close>

text \<open>
  An instance of the parameters, for the examples: four pages of 100 by 100 pixels and
  1000 bytes each in \<^verbatim>\<open>/books/a.cbz\<close>, an encoder that keeps the image it is given and
  writes 800, 1200, 950 or 900 bytes according to the format, a pool whose tasks
  complete in reverse order.
\<close>

definition example_image :: "int \<Rightarrow> int \<Rightarrow> image" where
  "example_image w h = \<lparr>im_size = (w, h), im_mode = ''RGB'', im_format = Some ''PNG''\<rparr>"

definition example_file :: "int \<Rightarrow> int \<Rightarrow> nat \<Rightarrow> filedata" where
  "example_file w h n = \<lparr>decoded = Some (example_image w h), head16 = [], st_size = n\<rparr>"

definition example_package :: package where
  "example_package =
     \<lparr>fmt_name = (\<lambda>f. case f of Png \<Rightarrow> ''png'' | Jpeg \<Rightarrow> ''jpeg''
                             | WebpLossless \<Rightarrow> ''webpll'' | WebpLossy \<Rightarrow> ''webp''),
      fmt_desc = (\<lambda>f. case f of Png \<Rightarrow> ''PNG'' | Jpeg \<Rightarrow> ''JPEG''
                             | WebpLossless \<Rightarrow> ''WebP Lossless'' | WebpLossy \<Rightarrow> ''WebP''),
      fmt_ext = (\<lambda>f. case f of Png \<Rightarrow> ''.png'' | Jpeg \<Rightarrow> ''.jpg''
                            | WebpLossless \<Rightarrow> ''.webp'' | WebpLossy \<Rightarrow> ''.webp''),
      fmt_save = (\<lambda>f q im. \<lparr>decoded = Some im, head16 = [],
                             st_size = (case f of Png \<Rightarrow> 800 | Jpeg \<Rightarrow> 1200
                                        | WebpLossless \<Rightarrow> 950 | WebpLossy \<Rightarrow> 900)\<rparr>),
      FormatDict = (\<lambda>n. if n = ''png'' then Some Png else if n = ''jpeg'' then Some Jpeg
                         else if n = ''webpll'' then Some WebpLossless
                         else if n = ''webp'' then Some WebpLossy else None),
      multi_chapter_epub = (\<lambda>t c. raise NotImplementedError),
      single_chapter_epub = (\<lambda>t c. raise NotImplementedError),
      CACHE_PREFIX = ''reCBZ2cache'',
      gettempdir = ''/tmp'',
      completion_order = (\<lambda>n. rev [0 ..< n])\<rparr>"

definition example_config :: config where
  "example_config = \<lparr>ignore_page_err = True, samples_count = 1, processes = 0,
      cpu_count = Some 4, allowed_page_formats = [Png, Jpeg, WebpLossy]\<rparr>"

definition example_options :: options where
  "example_options = \<lparr>format = None, quality = 80, size_opt = (0, 0), keep_ratio = False,
      grayscale = False, noup = False, nodown = False\<rparr>"

definition example_archive :: archive where
  "example_archive = \<lparr>src_fp = ''/books/a.cbz'', page_opt = example_options, index = [],
      chapter_lengths = [], bad_files = [], cachedir = ''/tmp/reCBZ2cache/book_a''\<rparr>"

definition example_entries :: "(string \<times> filedata) list" where
  "example_entries =
     [(''1.png'', example_file 100 100 1000), (''2.png'', example_file 100 100 1000),
      (''3.png'', example_file 100 100 1000), (''4.png'', example_file 100 100 1000)]"

definition example_world :: world where
  "example_world =
     \<lparr>files = [(''/books/a.cbz'', ZipArchive example_entries)],
      LossyFmt_quality = 80, cfg = example_config\<rparr>"

definition example_page :: "string \<Rightarrow> page" where
  "example_page n = \<lparr>fp = ''/tmp/reCBZ2cache/book_a/'' @ n, rel_path = n, name = n,
      stem = path_stem n, fmt_field = None, img_field = None\<rparr>"

definition example_chapters :: "page list list" where
  "example_chapters =
     [[example_page ''a.png'', example_page ''b.png''], [example_page ''c.png''],
      [example_page ''d.png'', example_page ''e.png'', example_page ''f.png'']]"


definition example_cache :: world where
  "example_cache =
     \<lparr>files = map (\<lambda>n. (''/tmp/reCBZ2cache/book_a/'' @ n, File (example_file 100 100 1000)))
                 [''a.png'', ''b.png'', ''c.png'', ''d.png'', ''e.png'', ''f.png''],
      LossyFmt_quality = 80, cfg = example_config\<rparr>"

text \<open>The invariant of the slots of a pool whose tasks compute \<open>f\<close>.\<close>

definition slots_ok :: "('a \<Rightarrow> 'b) \<Rightarrow> 'a list \<Rightarrow> (py_error + 'b) option list \<Rightarrow> bool" where
  "slots_ok f tasks slots =
     (length slots = length tasks \<and>
      (\<forall>i < length tasks. slots ! i = None \<or> slots ! i = Some (Inr (f (tasks ! i)))))"

text \<open>
  A book of three chapters whose pages are in the cache, and a disk on which the
  output file \<^verbatim>\<open>a.cbz\<close> already exists.
\<close>

definition example_book :: archive where
  "example_book = example_archive\<lparr>index := concat example_chapters, chapter_lengths := [2, 1, 3]\<rparr>"


text \<open>The file system after a path was removed.\<close>

definition without :: "path \<Rightarrow> world \<Rightarrow> world" where
  "without p w = w\<lparr>files := AList.delete p (files w)\<rparr>"






text \<open>
  Options with the no-downscale flag set and the no-upscale flag unset for a viewport
  of 50 by 50, and a cache in which \<^verbatim>\<open>b.png\<close> cannot be decoded.
\<close>

definition gated_options :: options where
  "gated_options = example_options\<lparr>size_opt := (50, 50), nodown := True, noup := False\<rparr>"

definition example_damaged :: world where
  "example_damaged = write_node ''/tmp/reCBZ2cache/book_a/b.png''
      (File \<lparr>decoded = None, head16 = [], st_size = 10\<rparr>) example_cache"

section \<open>Natural sort (\<^verbatim>\<open>human_sort\<close>)\<close>

lemma not_isdigit_text: "list_all (\<lambda>c. \<not> is_digit c) s \<Longrightarrow> \<not> isdigit s"
  by (cases s) (auto simp: isdigit_def)

lemma split_alternating:
  "list_all (\<lambda>c. \<not> is_digit c) acc \<Longrightarrow> alternating True (map convert (split_text acc s))"
  "acc \<noteq> [] \<Longrightarrow> list_all is_digit acc \<Longrightarrow> alternating False (map convert (split_digits acc s))"
proof (induction acc s and acc s rule: split_text_split_digits.induct)
  case (1 acc)
  then have "\<not> isdigit (rev acc)" by (intro not_isdigit_text) simp
  then show ?case by (simp add: convert_def)
next
  case (2 acc c cs)
  have nd: "\<not> isdigit (rev acc)" using 2(3) by (intro not_isdigit_text) simp
  show ?case
  proof (cases "is_digit c")
    case True
    with 2 nd show ?thesis by (simp add: convert_def)
  next
    case False
    with 2 show ?thesis by simp
  qed
next
  case (3 acc)
  then have "isdigit (rev acc)" by (simp add: isdigit_def)
  moreover have "\<not> isdigit []" by (simp add: isdigit_def)
  ultimately show ?case by (simp add: convert_def)
next
  case (4 acc c cs)
  have d: "isdigit (rev acc)" using 4 by (simp add: isdigit_def)
  show ?case
  proof (cases "is_digit c")
    case True
    with 4 show ?thesis by simp
  next
    case False
    with 4 d show ?thesis by (simp add: convert_def)
  qed
qed

lemma alternating_alphanum_key: "alternating True (alphanum_key s)"
  unfolding alphanum_key_def re_split_digits_def by (rule split_alternating) simp

lemma tok_lt_rank:
  "is_txt x = is_txt y \<Longrightarrow> tok_lt x y = Inr (tok_rank x < tok_rank y)"
  by (cases x; cases y) auto

lemma tok_rank_eq: "is_txt x = is_txt y \<Longrightarrow> tok_rank x = tok_rank y \<longleftrightarrow> x = y"
  by (cases x; cases y) auto

text \<open>
  On keys of the same shape no comparison raises, and the order is the lexicographic
  order of the ranks: text by code point, numbers by value.
\<close>

lemma key_lt_rank:
  "alternating b k1 \<Longrightarrow> alternating b k2 \<Longrightarrow> key_lt k1 k2 = Inr (map tok_rank k1 < map tok_rank k2)"
proof (induction k1 k2 arbitrary: b rule: key_lt.induct)
  case (4 x xs y ys)
  then have same: "is_txt x = is_txt y" by simp
  show ?case
  proof (cases "x = y")
    case True
    with 4 show ?thesis by auto
  next
    case False
    with same have "tok_rank x \<noteq> tok_rank y" by (simp add: tok_rank_eq)
    with False same show ?thesis by (simp add: tok_lt_rank)
  qed
qed simp_all

lemma key_lt_natural:
  "key_lt (alphanum_key a) (alphanum_key b) = Inr (natural_rank a < natural_rank b)"
  unfolding natural_rank_def
  by (rule key_lt_rank [OF alternating_alphanum_key alternating_alphanum_key])

lemma insort_lt_natural:
  "insort_lt key_lt (alphanum_key x, x) (map (\<lambda>s. (alphanum_key s, s)) ys) =
     Inr (map (\<lambda>s. (alphanum_key s, s)) (insort_key natural_rank x ys))"
proof (induction ys)
  case Nil
  show ?case by simp
next
  case (Cons y ys)
  show ?case
  proof (cases "natural_rank y < natural_rank x")
    case True
    then have "\<not> natural_rank x \<le> natural_rank y" by (simp add: not_le)
    with True Cons show ?thesis by (simp add: key_lt_natural)
  next
    case False
    moreover from False have "natural_rank x \<le> natural_rank y" by (simp add: not_less)
    ultimately show ?thesis by (simp add: key_lt_natural)
  qed
qed

lemma sorted_lt_natural:
  "sorted_lt key_lt (map (\<lambda>s. (alphanum_key s, s)) xs) =
     Inr (map (\<lambda>s. (alphanum_key s, s)) (sort_key natural_rank xs))"
  by (induction xs) (simp_all add: insort_lt_natural)

lemma human_sort_sort_key:
  assumes "lst \<noteq> []"
  shows "human_sort lst = Inr (sort_key natural_rank lst)"
proof -
  have "human_sort lst =
      (case sorted_lt key_lt (map (\<lambda>s. (alphanum_key s, s)) lst) of
         Inl e \<Rightarrow> Inl e | Inr ys \<Rightarrow> Inr (map snd ys))"
    using assms by (cases lst) (simp_all add: human_sort_def)
  then show ?thesis by (simp add: sorted_lt_natural comp_def)
qed







section \<open>Partial extraction (\<^verbatim>\<open>extract\<close> with a sample count)\<close>

lemma every_other_take:
  "2 * k \<le> length ys \<Longrightarrow> every_other (take (2 * k) ys) = map (\<lambda>i. ys ! (2 * i)) [0..<k]"
proof (induction k arbitrary: ys)
  case 0
  show ?case by simp
next
  case (Suc k)
  then obtain x y zs where ys: "ys = x # y # zs"
    by (cases ys; cases "tl ys") auto
  with Suc.prems have len: "2 * k \<le> length zs" by simp
  have "every_other (take (2 * Suc k) ys) = x # every_other (take (2 * k) zs)"
    by (simp add: ys)
  also have "\<dots> = x # map (\<lambda>i. zs ! (2 * i)) [0..<k]"
    by (simp add: Suc.IH [OF len])
  also have "\<dots> = map (\<lambda>i. ys ! (2 * i)) [0..<Suc k]"
    by (simp add: ys upt_rec [of 0 "Suc k"] map_Suc_upt [symmetric] del: upt_Suc)
  finally show ?case .
qed


lemma py_slice2_mid:
  assumes "a + 2 * k \<le> length xs"
  shows "py_slice2 xs (int a) (int (a + 2 * k)) = map (\<lambda>i. xs ! (a + 2 * i)) [0..<k]"
proof -
  have "nat (int a + 2 * int k) - a = 2 * k" by arith
  then have "py_slice2 xs (int a) (int (a + 2 * k)) = every_other (take (2 * k) (drop a xs))"
    using assms by (simp add: py_slice2_def py_slice_bound_def Let_def)
  also have "\<dots> = map (\<lambda>i. drop a xs ! (2 * i)) [0..<k]"
    using assms by (intro every_other_take) simp
  also have "\<dots> = map (\<lambda>i. xs ! (a + 2 * i)) [0..<k]"
    using assms by simp
  finally show ?thesis .
qed

lemma select_sample_slice:
  assumes "0 < k" "2 * k \<le> length names"
  shows "select_sample names (int k) =
           Inr (map (\<lambda>i. names ! (length names div 2 - k + 2 * i)) [0..<k])"
proof -
  let ?n = "length names"
  have le: "k \<le> ?n div 2" using assms by simp
  have fit: "(?n div 2 - k) + 2 * k \<le> ?n" using assms by simp
  have lo: "int ?n div 2 - int k = int (?n div 2 - k)"
    using le by (simp add: of_nat_diff zdiv_int)
  have hi: "int ?n div 2 + int k = int ((?n div 2 - k) + 2 * k)"
    using le by (simp add: zdiv_int)
  have "select_sample names (int k) = Inr (py_slice2 names (int ?n div 2 - int k) (int ?n div 2 + int k))"
    using assms by (simp add: select_sample_def Let_def)
  also have "\<dots> = Inr (map (\<lambda>i. names ! (?n div 2 - k + 2 * i)) [0..<k])"
    unfolding lo hi using py_slice2_mid [OF fit] by simp
  finally show ?thesis .
qed

lemma select_sample_too_small:
  assumes "0 < k" "length names < 2 * k"
  shows "select_sample names (int k) = Inl (ValueError ''is smaller than samples * 2'')"
  using assms by (simp add: select_sample_def)


lemma Page_errors:
  "Page pk p = Inl e \<Longrightarrow> e = IndexError \<or> e = ValueError ''is not in the subpath''"
  unfolding Page_def Let_def by (auto split: list.splits if_splits)

lemma collect_errors: "collect f xs = Inl e \<Longrightarrow> \<exists>x. f x = Inl e"
  by (induction xs) (auto split: sum.splits)

lemma human_sort_errors: "human_sort lst = Inl e \<Longrightarrow> e = IndexError"
  using human_sort_sort_key [of lst] by (cases lst) (auto simp: human_sort_def)

lemma extract_pages_selected:
  assumes "lookup w (src_fp self) = Some (ZipArchive entries)" and "1 \<le> length entries"
    and "select_sample (map fst entries) c = Inr selected"
  shows "snd (extract_pages pk self c w) = fold (zip_extract entries (cachedir self)) selected w"
    and "fst (extract_pages pk self c w) \<noteq> Inl (ValueError ''is smaller than samples * 2'')"
proof -
  let ?w1 = "fold (zip_extract entries (cachedir self)) selected w"
  let ?raw = "rglob_files ?w1 (cachedir self)"
  have ne: "entries \<noteq> []" using assms(2) by auto
  have ex: "extract_pages pk self c w =
      (case human_sort ?raw of
         Inl e \<Rightarrow> (Inl e, ?w1)
       | Inr sorted_paths \<Rightarrow>
           (case collect (Page pk) sorted_paths of
              Inl e \<Rightarrow> (Inl e, ?w1)
            | Inr sorted_pages \<Rightarrow> (Inr (sorted_paths, sorted_pages), ?w1)))"
    using assms ne by (simp add: extract_pages_def Let_def)
  show "snd (extract_pages pk self c w) = ?w1"
    unfolding ex by (simp split: sum.splits)
  show "fst (extract_pages pk self c w) \<noteq> Inl (ValueError ''is smaller than samples * 2'')"
  proof (cases "human_sort ?raw")
    case (Inl e)
    then have "e = IndexError" by (rule human_sort_errors)
    with Inl show ?thesis unfolding ex by simp
  next
    case (Inr sorted_paths)
    show ?thesis
    proof (cases "collect (Page pk) sorted_paths")
      case (Inl e)
      then obtain x where "Page pk x = Inl e" using collect_errors by blast
      then have "e = IndexError \<or> e = ValueError ''is not in the subpath''" by (rule Page_errors)
      with Inl Inr show ?thesis unfolding ex by auto
    next
      case (Inr b)
      with \<open>human_sort ?raw = Inr sorted_paths\<close> show ?thesis unfolding ex by simp
    qed
  qed
qed

text \<open>
  C3 (amended). For an archive of \<open>n \<ge> 1\<close> entries and a sample count \<open>k > 0\<close>,
  partial extraction raises the ValueError "smaller than samples * 2" exactly when
  \<open>n < 2 * k\<close>. Otherwise it extracts precisely the entries at the indices
  \<open>n div 2 - k + 2 * i\<close> for \<open>i < k\<close>, every second entry of the window from
  \<open>n div 2 - k\<close> to \<open>n div 2 + k\<close>: a sample of \<open>k\<close> entries, not \<open>2 * k\<close>.
\<close>

theorem extract_pages_sample:
  assumes zip: "lookup w (src_fp self) = Some (ZipArchive entries)"
    and n: "1 \<le> length entries" and k: "0 < k"
  shows "(fst (extract_pages pk self (int k) w) = Inl (ValueError ''is smaller than samples * 2'')
            \<longleftrightarrow> length entries < 2 * k)
       \<and> (2 * k \<le> length entries \<longrightarrow>
            select_sample (map fst entries) (int k) =
              Inr (map (\<lambda>i. fst (entries ! (length entries div 2 - k + 2 * i))) [0..<k])
          \<and> length (map (\<lambda>i. fst (entries ! (length entries div 2 - k + 2 * i))) [0..<k]) = k
          \<and> snd (extract_pages pk self (int k) w) =
              fold (zip_extract entries (cachedir self))
                (map (\<lambda>i. fst (entries ! (length entries div 2 - k + 2 * i))) [0..<k]) w)"
proof (cases "length entries < 2 * k")
  have ne: "entries \<noteq> []" using n by auto
  case True
  then have "select_sample (map fst entries) (int k) = Inl (ValueError ''is smaller than samples * 2'')"
    using k by (intro select_sample_too_small) simp_all
  then have "extract_pages pk self (int k) w = (Inl (ValueError ''is smaller than samples * 2''), w)"
    using zip ne by (simp add: extract_pages_def Let_def)
  with True show ?thesis by simp
next
  case False
  let ?sel = "map (\<lambda>i. fst (entries ! (length entries div 2 - k + 2 * i))) [0..<k]"
  from False have big: "2 * k \<le> length (map fst entries)" by simp
  have "select_sample (map fst entries) (int k) =
      Inr (map (\<lambda>i. map fst entries ! (length (map fst entries) div 2 - k + 2 * i)) [0..<k])"
    by (rule select_sample_slice [OF k big])
  also have "map (\<lambda>i. map fst entries ! (length (map fst entries) div 2 - k + 2 * i)) [0..<k] = ?sel"
    using False by (intro map_cong) auto
  finally have sel: "select_sample (map fst entries) (int k) = Inr ?sel" .
  from extract_pages_selected [OF zip n sel] False sel show ?thesis by simp
qed

theorem extract_pages_sample_witness:
  "lookup example_world (src_fp example_archive) = Some (ZipArchive example_entries)
   \<and> 1 \<le> length example_entries \<and> (0::nat) < 1
   \<and> snd (extract_pages example_package example_archive 1 example_world) =
       example_world\<lparr>files := files example_world @
          [(''/tmp/reCBZ2cache/book_a/2.png'', File (example_file 100 100 1000))]\<rparr>"
proof -
  have zip: "lookup example_world (src_fp example_archive) = Some (ZipArchive example_entries)"
    by (simp add: lookup_def example_world_def example_archive_def)
  have n: "1 \<le> length example_entries" by (simp add: example_entries_def)
  have k: "(0::nat) < 1" by simp
  have "fold (zip_extract example_entries (cachedir example_archive))
          (map (\<lambda>i. fst (example_entries ! (length example_entries div 2 - 1 + 2 * i))) [0..<1])
          example_world =
        example_world\<lparr>files := files example_world @
          [(''/tmp/reCBZ2cache/book_a/2.png'', File (example_file 100 100 1000))]\<rparr>"
    by code_simp
  with extract_pages_sample [OF zip n k, of example_package] zip n k show ?thesis
    by (simp add: example_entries_def)
qed

text \<open>
  With four entries and \<open>k = 1\<close> the sample is the single page \<^verbatim>\<open>2.png\<close>, not two pages.
\<close>

theorem extract_pages_sample_counterexample:
  "fst (extract_pages example_package example_archive 1 example_world) =
     Inr ([''/tmp/reCBZ2cache/book_a/2.png''],
          [\<lparr>fp = ''/tmp/reCBZ2cache/book_a/2.png'', rel_path = ''2.png'', name = ''2.png'',
            stem = ''2'', fmt_field = None, img_field = None\<rparr>])
   \<and> length [''/tmp/reCBZ2cache/book_a/2.png''] \<noteq> 2 * 1"
  by code_simp

section \<open>Chapter directories in the container (\<^verbatim>\<open>write_zip\<close>)\<close>

lemma length_str_nat_pos: "0 < length (str_nat n)"
  by (subst str_nat.simps) simp

lemma length_str_nat_mono: "m \<le> n \<Longrightarrow> length (str_nat m) \<le> length (str_nat n)"
proof (induction n arbitrary: m rule: str_nat.induct)
  case (1 n)
  show ?case
  proof (cases "n < 10")
    case True
    with 1(2) show ?thesis by (simp add: str_nat.simps [of m] str_nat.simps [of n])
  next
    case False
    show ?thesis
    proof (cases "m < 10")
      case True
      with False show ?thesis
        using length_str_nat_pos [of "n div 10"]
        by (simp add: str_nat.simps [of m] str_nat.simps [of n])
    next
      case m: False
      from 1(2) have "m div 10 \<le> n div 10" by (rule div_le_mono)
      with 1(1) [OF False] have "length (str_nat (m div 10)) \<le> length (str_nat (n div 10))" .
      with False m show ?thesis by (simp add: str_nat.simps [of m] str_nat.simps [of n])
    qed
  qed
qed

lemma length_zero_pad:
  "m \<le> n \<Longrightarrow> length (zero_pad (length (str_nat n)) m) = length (str_nat n)"
  using length_str_nat_mono [of m n] by (simp add: zero_pad_def)

lemma zip_arcnames_sources: "map fst (zip_arcnames chapters pre) = map fp (concat chapters)"
proof -
  have "map fst (concat (map (\<lambda>ic. map (\<lambda>pg. (fp pg, g ic pg)) (snd ic)) ics)) =
        map fp (concat (map snd ics))" for g :: "nat \<times> page list \<Rightarrow> page \<Rightarrow> path" and ics
    by (induction ics) (simp_all add: comp_def)
  then show ?thesis
    by (simp add: zip_arcnames_def Let_def enumerate_eq_zip)
qed

lemma lookup_write_node [simp]:
  "lookup (write_node p n w) q = (if q = p then Some n else lookup w q)"
  by (simp add: lookup_def write_node_def update_conv')

lemma write_node_twice [simp]: "write_node p n (write_node p m w) = write_node p n w"
  by (simp add: write_node_def)

lemma for_each_zip_write:
  assumes "lookup w save_path = Some (ZipArchive es)"
    and "\<forall>sd \<in> set sds. fst sd \<noteq> save_path \<and> (\<exists>d. lookup w (fst sd) = Some (File d))"
  shows "\<exists>es'. snd (for_each (zip_write save_path) sds w) = write_node save_path (ZipArchive (es @ es')) w
           \<and> map fst es' = map snd sds
           \<and> (\<exists>us. fst (for_each (zip_write save_path) sds w) = Inr us)"
  using assms
proof (induction sds arbitrary: w es)
  case Nil
  then have "write_node save_path (ZipArchive es) w = w"
    by (simp add: write_node_def lookup_def map_of_eq_Some_iff update_triv)
  then show ?case by (simp add: return_def)
next
  case (Cons sd sds)
  from Cons.prems obtain d where d: "lookup w (fst sd) = Some (File d)" and ne: "fst sd \<noteq> save_path"
    by auto
  let ?w1 = "write_node save_path (ZipArchive (es @ [(snd sd, d)])) w"
  have step: "zip_write save_path sd w = (Inr (), ?w1)"
    using d Cons.prems(1) by (simp add: zip_write_def)
  have l1: "lookup ?w1 save_path = Some (ZipArchive (es @ [(snd sd, d)]))" by simp
  have l2: "\<forall>sd \<in> set sds. fst sd \<noteq> save_path \<and> (\<exists>d. lookup ?w1 (fst sd) = Some (File d))"
    using Cons.prems(2) by simp
  from Cons.IH [OF l1 l2] obtain es' us where
    r: "snd (for_each (zip_write save_path) sds ?w1) =
          write_node save_path (ZipArchive ((es @ [(snd sd, d)]) @ es')) ?w1"
    and m: "map fst es' = map snd sds"
    and u: "fst (for_each (zip_write save_path) sds ?w1) = Inr us"
    by blast
  have fe: "for_each (zip_write save_path) sds ?w1 =
        (Inr us, write_node save_path (ZipArchive (es @ ((snd sd, d) # es'))) w)"
    using r u by (cases "for_each (zip_write save_path) sds ?w1") simp
  have "snd (for_each (zip_write save_path) (sd # sds) w) =
        write_node save_path (ZipArchive (es @ ((snd sd, d) # es'))) w"
    using step fe by (simp add: and_then_def return_def)
  moreover have "map fst ((snd sd, d) # es') = map snd (sd # sds)" using m by simp
  moreover have "\<exists>us. fst (for_each (zip_write save_path) (sd # sds) w) = Inr us"
    using step fe by (simp add: and_then_def return_def)
  ultimately show ?case by blast
qed

lemma write_zip_entries:
  assumes "\<forall>pg \<in> set (concat chapters). fp pg \<noteq> save_path \<and> (\<exists>d. lookup w (fp pg) = Some (File d))"
  shows "\<exists>es. write_zip save_path chapters pre w =
                (Inr save_path, write_node save_path (ZipArchive es) w)
           \<and> map fst es = map snd (zip_arcnames chapters pre)"
proof -
  let ?w0 = "write_node save_path (ZipArchive []) w"
  let ?sds = "zip_arcnames chapters pre"
  have "set (map fst ?sds) = set (map fp (concat chapters))"
    by (simp only: zip_arcnames_sources)
  then have src: "fst ` set ?sds = fp ` set (concat chapters)" by simp
  have a: "lookup ?w0 save_path = Some (ZipArchive [])" by simp
  have b: "\<forall>sd \<in> set ?sds. fst sd \<noteq> save_path \<and> (\<exists>d. lookup ?w0 (fst sd) = Some (File d))"
  proof
    fix sd assume "sd \<in> set ?sds"
    then have "fst sd \<in> fp ` set (concat chapters)" using src by blast
    then obtain pg where "pg \<in> set (concat chapters)" "fst sd = fp pg" by blast
    with assms show "fst sd \<noteq> save_path \<and> (\<exists>d. lookup ?w0 (fst sd) = Some (File d))"
      by auto
  qed
  from for_each_zip_write [OF a b] obtain es us where
    r: "snd (for_each (zip_write save_path) ?sds ?w0) = write_node save_path (ZipArchive es) ?w0"
    and m: "map fst es = map snd ?sds"
    and u: "fst (for_each (zip_write save_path) ?sds ?w0) = Inr us"
    by auto
  have fe: "for_each (zip_write save_path) ?sds ?w0 = (Inr us, write_node save_path (ZipArchive es) w)"
    using r u by (cases "for_each (zip_write save_path) ?sds ?w0") simp
  have "write_zip save_path chapters pre w = (Inr save_path, write_node save_path (ZipArchive es) w)"
    using fe by (simp add: write_zip_def and_then_def return_def)
  with m show ?thesis by blast
qed

text \<open>
  C9. \<open>write_zip\<close> visits the pages in index order. With more than one chapter the
  page of chapter \<open>i\<close> (counted from 1) is written under the directory named by the
  prefix followed by \<open>i\<close>, padded with zeros to the number of digits of the chapter
  count, so that all chapter directories have names of one length; with one chapter
  the destination is the page's relative path alone. When the page files exist, the
  container holds exactly these destinations, in this order. Three chapters of sizes
  2, 1, 3 and prefix \<^verbatim>\<open>v\<close> give \<^verbatim>\<open>v1/\<close>, \<^verbatim>\<open>v1/\<close>, \<^verbatim>\<open>v2/\<close>, \<^verbatim>\<open>v3/\<close>, \<^verbatim>\<open>v3/\<close>, \<^verbatim>\<open>v3/\<close>.
\<close>

theorem write_zip_chapter_paths:
  "map fst (zip_arcnames chapters pre) = map fp (concat chapters)
   \<and> (1 < length chapters \<longrightarrow>
        map snd (zip_arcnames chapters pre) =
          concat (map (\<lambda>ic. map (\<lambda>pg. joinpath
                                (pre @ zero_pad (length (str_nat (length chapters))) (Suc (fst ic)))
                                (rel_path pg)) (snd ic))
                      (enumerate 0 chapters))
        \<and> (\<forall>i < length chapters.
              length (zero_pad (length (str_nat (length chapters))) (Suc i)) =
              length (str_nat (length chapters))))
   \<and> (length chapters = 1 \<longrightarrow>
        map snd (zip_arcnames chapters pre) = map (\<lambda>pg. norm_path (rel_path pg)) (hd chapters))
   \<and> ((\<forall>pg \<in> set (concat chapters).
          fp pg \<noteq> save_path \<and> (\<exists>d. lookup w (fp pg) = Some (File d))) \<longrightarrow>
        (\<exists>es. write_zip save_path chapters pre w =
                (Inr save_path, write_node save_path (ZipArchive es) w)
            \<and> map fst es = map snd (zip_arcnames chapters pre)))"
proof (intro conjI impI allI)
  show "map fst (zip_arcnames chapters pre) = map fp (concat chapters)"
    by (rule zip_arcnames_sources)
next
  assume "1 < length chapters"
  then show "map snd (zip_arcnames chapters pre) =
          concat (map (\<lambda>ic. map (\<lambda>pg. joinpath
                                (pre @ zero_pad (length (str_nat (length chapters))) (Suc (fst ic)))
                                (rel_path pg)) (snd ic))
                      (enumerate 0 chapters))"
    by (simp add: zip_arcnames_def Let_def map_concat comp_def)
next
  fix i assume "i < length chapters"
  then show "length (zero_pad (length (str_nat (length chapters))) (Suc i)) =
              length (str_nat (length chapters))"
    by (intro length_zero_pad) simp
next
  assume "length chapters = 1"
  then obtain ch where "chapters = [ch]" by (cases chapters) auto
  then show "map snd (zip_arcnames chapters pre) = map (\<lambda>pg. norm_path (rel_path pg)) (hd chapters)"
    by (simp add: zip_arcnames_def Let_def comp_def)
next
  assume "\<forall>pg \<in> set (concat chapters).
          fp pg \<noteq> save_path \<and> (\<exists>d. lookup w (fp pg) = Some (File d))"
  then show "\<exists>es. write_zip save_path chapters pre w =
                (Inr save_path, write_node save_path (ZipArchive es) w)
            \<and> map fst es = map snd (zip_arcnames chapters pre)"
    by (rule write_zip_entries)
qed

theorem write_zip_chapter_paths_witness:
  "1 < length example_chapters
   \<and> map snd (zip_arcnames example_chapters chapter_prefix) =
       [''v1/a.png'', ''v1/b.png'', ''v2/c.png'', ''v3/d.png'', ''v3/e.png'', ''v3/f.png'']
   \<and> length [example_page ''a.png''] = 1
   \<and> map snd (zip_arcnames [[example_page ''a.png'']] chapter_prefix) = [''a.png'']
   \<and> fst (write_zip ''/books/out.cbz'' example_chapters chapter_prefix example_cache) =
       Inr ''/books/out.cbz''
   \<and> lookup (snd (write_zip ''/books/out.cbz'' example_chapters chapter_prefix example_cache))
         ''/books/out.cbz'' =
       Some (ZipArchive (map (\<lambda>n. (n, example_file 100 100 1000))
         [''v1/a.png'', ''v1/b.png'', ''v2/c.png'', ''v3/d.png'', ''v3/e.png'', ''v3/f.png'']))"
proof -
  have len: "1 < length example_chapters" by (simp add: example_chapters_def)
  have len1: "length [[example_page ''a.png'']] = 1" by simp
  have a: "concat (map (\<lambda>ic. map (\<lambda>pg. joinpath
                (chapter_prefix @ zero_pad (length (str_nat (length example_chapters))) (Suc (fst ic)))
                (rel_path pg)) (snd ic)) (enumerate 0 example_chapters)) =
       [''v1/a.png'', ''v1/b.png'', ''v2/c.png'', ''v3/d.png'', ''v3/e.png'', ''v3/f.png'']"
    by code_simp
  have b: "map (\<lambda>pg. norm_path (rel_path pg)) (hd [[example_page ''a.png'']]) = [''a.png'']"
    by code_simp
  from write_zip_chapter_paths [of example_chapters chapter_prefix] len a
  have "map snd (zip_arcnames example_chapters chapter_prefix) =
       [''v1/a.png'', ''v1/b.png'', ''v2/c.png'', ''v3/d.png'', ''v3/e.png'', ''v3/f.png'']"
    by simp
  moreover from write_zip_chapter_paths [of "[[example_page ''a.png'']]" chapter_prefix] b
  have "map snd (zip_arcnames [[example_page ''a.png'']] chapter_prefix) = [''a.png'']"
    by simp
  moreover have "fst (write_zip ''/books/out.cbz'' example_chapters chapter_prefix example_cache) =
       Inr ''/books/out.cbz''"
    by code_simp
  moreover have
    "lookup (snd (write_zip ''/books/out.cbz'' example_chapters chapter_prefix example_cache))
         ''/books/out.cbz'' =
       Some (ZipArchive (map (\<lambda>n. (n, example_file 100 100 1000))
         [''v1/a.png'', ''v1/b.png'', ''v2/c.png'', ''v3/d.png'', ''v3/e.png'', ''v3/f.png'']))"
    by code_simp
  ultimately show ?thesis using len by simp
qed

section \<open>The format-size report (\<^verbatim>\<open>compute_fmt_sizes\<close>)\<close>






section \<open>The worker pool (\<^verbatim>\<open>map_workers\<close>)\<close>

lemma pcount_pos:
  assumes "case cpu_count c of None \<Rightarrow> True | Some k \<Rightarrow> 1 \<le> k"
  shows "1 \<le> pcount c"
  using assms by (auto simp: pcount_def Let_def split: option.splits)

lemma map_in_order_pure:
  assumes "\<forall>x s. fst (func x s) = Inr (f x)"
  shows "fst (map_in_order func xs s) = Inr (map f xs)"
proof (induction xs arbitrary: s)
  case Nil
  show ?case by simp
next
  case (Cons x xs)
  obtain s1 where a: "func x s = (Inr (f x), s1)"
    using assms by (cases "func x s") (metis fst_conv)
  obtain s2 where b: "map_in_order func xs s1 = (Inr (map f xs), s2)"
    using Cons [of s1] by (cases "map_in_order func xs s1") auto
  show ?case by (simp add: a b)
qed

lemma run_tasks_pure:
  assumes pure: "\<forall>x s. fst (func x s) = Inr (f x)"
    and ok: "slots_ok f tasks slots"
  shows "\<exists>slots' s'. run_tasks func tasks order (slots, None, s) = (slots', None, s')
           \<and> slots_ok f tasks slots'
           \<and> (\<forall>i < length tasks. i \<in> set order \<or> slots ! i \<noteq> None \<longrightarrow> slots' ! i \<noteq> None)"
  using ok
proof (induction order arbitrary: slots s)
  case Nil
  then show ?case by simp
next
  case (Cons i order)
  show ?case
  proof (cases "i < length tasks \<and> slots ! i = None")
    case True
    obtain s1 where a: "func (tasks ! i) s = (Inr (f (tasks ! i)), s1)"
      using pure by (cases "func (tasks ! i) s") (metis fst_conv)
    let ?slots1 = "slots[i := Some (Inr (f (tasks ! i)))]"
    have ok1: "slots_ok f tasks ?slots1"
      using Cons.prems True by (auto simp: slots_ok_def nth_list_update)
    from Cons.IH [OF ok1, where s = s1] obtain slots' s' where
      r: "run_tasks func tasks order (?slots1, None, s1) = (slots', None, s')"
      and ok': "slots_ok f tasks slots'"
      and filled: "\<forall>j < length tasks. j \<in> set order \<or> ?slots1 ! j \<noteq> None \<longrightarrow> slots' ! j \<noteq> None"
      by blast
    have "run_tasks func tasks (i # order) (slots, None, s) = (slots', None, s')"
      using True a r by simp
    moreover have "\<forall>j < length tasks. j \<in> set (i # order) \<or> slots ! j \<noteq> None \<longrightarrow> slots' ! j \<noteq> None"
    proof (intro allI impI)
      fix j assume j: "j < length tasks" and h: "j \<in> set (i # order) \<or> slots ! j \<noteq> None"
      have "length slots = length tasks" using Cons.prems by (simp add: slots_ok_def)
      with j h have "j \<in> set order \<or> ?slots1 ! j \<noteq> None"
        by (cases "j = i") (auto simp: nth_list_update)
      with filled j show "slots' ! j \<noteq> None" by blast
    qed
    ultimately show ?thesis using ok' by blast
  next
    case False
    from Cons.IH [OF Cons.prems, where s = s] obtain slots' s' where
      r: "run_tasks func tasks order (slots, None, s) = (slots', None, s')"
      and ok': "slots_ok f tasks slots'"
      and filled: "\<forall>j < length tasks. j \<in> set order \<or> slots ! j \<noteq> None \<longrightarrow> slots' ! j \<noteq> None"
      by blast
    have "run_tasks func tasks (i # order) (slots, None, s) = (slots', None, s')"
      using False r by auto
    moreover have "\<forall>j < length tasks. j \<in> set (i # order) \<or> slots ! j \<noteq> None \<longrightarrow> slots' ! j \<noteq> None"
      using filled False by auto
    ultimately show ?thesis using ok' by blast
  qed
qed

lemma map_filter_slot_value:
  "List.map_filter slot_value (map (\<lambda>x. Some (Inr (f x))) xs) = map f xs"
  by (induction xs) (simp_all add: map_filter_simps slot_value_def)

lemma pool_map_pure:
  assumes pure: "\<forall>x s. fst (func x s) = Inr (f x)"
  shows "fst (pool_map order func tasks s) = Inr (map f tasks)"
proof -
  let ?n = "length tasks"
  have ok: "slots_ok f tasks (replicate ?n None)" by (simp add: slots_ok_def)
  from run_tasks_pure [OF pure ok, where order = "order @ [0..<?n]" and s = s] obtain slots' s' where
    r: "run_tasks func tasks (order @ [0..<?n]) (replicate ?n None, None, s) = (slots', None, s')"
    and ok': "slots_ok f tasks slots'"
    and filled: "\<forall>i < ?n. slots' ! i \<noteq> None"
    by auto
  have "slots' = map (\<lambda>x. Some (Inr (f x))) tasks"
  proof (rule nth_equalityI)
    show "length slots' = length (map (\<lambda>x. Some (Inr (f x))) tasks)"
      using ok' by (simp add: slots_ok_def)
  next
    fix i assume "i < length slots'"
    then have i: "i < ?n" using ok' by (simp add: slots_ok_def)
    then have "slots' ! i \<noteq> None" using filled by simp
    with ok' i show "slots' ! i = map (\<lambda>x. Some (Inr (f x))) tasks ! i"
      by (auto simp: slots_ok_def)
  qed
  with r show ?thesis by (simp add: pool_map_def map_filter_slot_value)
qed

text \<open>
  C6. For a task function that computes \<open>f\<close> (whatever state it runs in) and a non-empty
  list of inputs, \<open>map_workers\<close> returns a sequence of the same length whose i-th
  element is \<open>f\<close> of the i-th input: in the synchronous branch, the thread pool and the
  process pool alike, and for every order in which the tasks of a pool complete.
  (\<^verbatim>\<open>os.cpu_count()\<close> is \<^verbatim>\<open>None\<close> or at least 1.)
\<close>

theorem map_workers_input_order:
  assumes "xs \<noteq> []"
    and "case cpu_count c of None \<Rightarrow> True | Some k \<Rightarrow> 1 \<le> k"
    and "\<forall>x s. fst (func x s) = Inr (f x)"
  shows "\<exists>rs. fst (map_workers pk c func xs multithread s) = Inr rs
           \<and> first_pass rs = map f xs \<and> length (first_pass rs) = length xs"
proof -
  note pure = assms(3)
  have p: "1 \<le> pcount c" by (rule pcount_pos [OF assms(2)])
  have n: "1 \<le> int (length xs)" using assms(1) by (cases xs) auto
  let ?n_proc = "min (int (length xs)) (pcount c)"
  have np: "\<not> ?n_proc < 1" using p n by simp
  obtain s1 where a: "map_in_order func xs s = (Inr (map f xs), s1)"
    using map_in_order_pure [of func f xs s, OF pure] by (cases "map_in_order func xs s") auto
  obtain s2 where b: "pool_map (completion_order pk (length xs)) func xs s = (Inr (map f xs), s2)"
    using pool_map_pure [of func f "completion_order pk (length xs)" xs s, OF pure]
    by (cases "pool_map (completion_order pk (length xs)) func xs s") auto
  show ?thesis
  proof (cases "?n_proc = 1")
    case True
    then have "fst (map_workers pk c func xs multithread s) = Inr (MapObject (map f xs))"
      using a by (simp add: map_workers_def Let_def)
    then show ?thesis by simp
  next
    case False
    then have "fst (map_workers pk c func xs multithread s) = Inr (ResultList (map f xs))"
      using b np by (simp add: map_workers_def Let_def)
    then show ?thesis by simp
  qed
qed

theorem map_workers_input_order_witness:
  "[1, 2, 3 :: nat] \<noteq> []
   \<and> (case cpu_count example_config of None \<Rightarrow> True | Some k \<Rightarrow> 1 \<le> k)
   \<and> (\<exists>rs. fst (map_workers example_package example_config (\<lambda>x s. (Inr (x * x), s))
                  [1, 2, 3 :: nat] False ()) = Inr rs
         \<and> first_pass rs = [1, 4, 9])"
proof -
  have a: "[1, 2, 3 :: nat] \<noteq> []" by simp
  have b: "case cpu_count example_config of None \<Rightarrow> True | Some k \<Rightarrow> 1 \<le> k"
    by (simp add: example_config_def)
  have c: "\<forall>x s. fst ((\<lambda>(x :: nat) (s :: unit). (Inr (x * x) :: py_error + nat, s)) x s)
             = Inr ((\<lambda>x. x * x) x)"
    by simp
  from map_workers_input_order [OF a b c, of example_package False "()"]
  have "\<exists>rs. fst (map_workers example_package example_config (\<lambda>x s. (Inr (x * x), s))
                  [1, 2, 3 :: nat] False ()) = Inr rs
         \<and> first_pass rs = [1, 4, 9]"
    by auto
  with a b show ?thesis by blast
qed

section \<open>Overwriting the output (\<^verbatim>\<open>write_archive\<close>)\<close>

lemma lookup_without [simp]: "lookup (without p w) q = (if q = p then None else lookup w q)"
  by (simp add: lookup_def without_def delete_conv')

lemma unlink_file: "is_file w p \<Longrightarrow> unlink p w = (Inr (), without p w)"
  by (auto simp: unlink_def is_file_def without_def split: option.splits node.splits)

lemma is_file_exists: "is_file w p \<Longrightarrow> exists w p"
  by (auto simp: is_file_def exists_def split: option.splits)

lemma is_dir_exists: "is_dir w p \<Longrightarrow> exists w p"
  by (simp add: is_dir_def exists_def)



text \<open>For \<^verbatim>\<open>mobi\<close> the old file is removed although nothing is written.\<close>

lemma write_archive_mobi_removes:
  assumes "is_file w (destination self ''mobi'' file_name)"
    and "file_name \<noteq> [] \<longrightarrow> is_dir w (path_parent file_name)"
  shows "write_archive pk self ''mobi'' file_name w =
           (Inl NotImplementedError, without (destination self ''mobi'' file_name) w)"
proof -
  have "''mobi'' \<in> set VALID_BOOK_FORMATS" by (simp add: VALID_BOOK_FORMATS_def)
  then have "\<not> (file_name \<noteq> [] \<and>
      \<not> (exists w (path_parent file_name) \<and> is_dir w (path_parent file_name)))"
    using assms(2) by (auto dest: is_dir_exists)
  then show ?thesis
    using is_file_exists [OF assms(1)] unlink_file [OF assms(1)]
    by (auto simp: write_archive_def and_then_def raise_def write_container_def
        VALID_BOOK_FORMATS_def)
qed


section \<open>The per-page conversion (\<^verbatim>\<open>convert_page_worker\<close>)\<close>






lemma lookup_globals [simp]:
  "lookup (w\<lparr>LossyFmt_quality := q\<rparr>) p = lookup w p"
  "lookup (w\<lparr>cfg := c\<rparr>) p = lookup w p"
  by (simp_all add: lookup_def)

lemma write_node_globals [simp]:
  "cfg (write_node p n w) = cfg w"
  "LossyFmt_quality (write_node p n w) = LossyFmt_quality w"
  "write_node p n (w\<lparr>cfg := c\<rparr>) = (write_node p n w)\<lparr>cfg := c\<rparr>"
  by (simp_all add: write_node_def)









lemma resize_step_nodown_noup_unset:
  assumes "get_img w pg = (Inr im0, pg')"
    and "fst (size_opt opts) \<noteq> 0" and "snd (size_opt opts) \<noteq> 0"
    and "\<not> keep_ratio opts" and "nodown opts" and "\<not> noup opts"
  shows "resize_step w pg opts img =
           img_resize img (if snd (im_size im0) < fst (im_size im0)
                           then (snd (size_opt opts), fst (size_opt opts)) else size_opt opts)"
  using assms by (simp add: resize_step_def landscape_def Let_def)

text \<open>
  C2 (the code differs). The claim is that a page larger than the viewport in both
  dimensions keeps its size when the no-downscale flag is set and the no-upscale flag
  is unset. In the code the flag only makes the first condition fail; the \<^verbatim>\<open>elif\<close>
  branch, taken whenever the no-upscale flag is unset, then resizes all the same. A
  page of 100 by 100 with a viewport of 50 by 50 is saved as 50 by 50.
\<close>

theorem convert_page_worker_nodown_resizes:
  "lookup example_cache ''/tmp/reCBZ2cache/book_a/a.png'' =
     Some (File \<lparr>decoded = Some \<lparr>im_size = (100, 100), im_mode = ''RGB'', im_format = Some ''PNG''\<rparr>,
                 head16 = [], st_size = 1000\<rparr>)
   \<and> nodown gated_options \<and> \<not> noup gated_options \<and> size_opt gated_options = (50, 50)
   \<and> fst (convert_page_worker example_package (example_page ''a.png'') gated_options None
           example_cache) =
       Inr (True, \<lparr>fp = ''/tmp/reCBZ2cache/book_a/a.png'', rel_path = ''a.png'', name = ''a.png'',
                   stem = ''a'', fmt_field = Some Png, img_field = None\<rparr>)
   \<and> lookup (snd (convert_page_worker example_package (example_page ''a.png'') gated_options None
           example_cache)) ''/tmp/reCBZ2cache/book_a/a.png'' =
       Some (File \<lparr>decoded = Some \<lparr>im_size = (50, 50), im_mode = ''RGB'', im_format = None\<rparr>,
                   head16 = [], st_size = 800\<rparr>)"
  by code_simp

section \<open>The archive invariant\<close>

text \<open>
  C4 (the code differs). The chapter lengths [2, 1, 3] partition the six pages of the
  example book. After \<open>remove_page\<close>, and after \<open>convert_pages\<close> when one page fails
  to convert, five pages are left and the chapter lengths are still [2, 1, 3]:
  neither operation touches \<^verbatim>\<open>_chapter_lengths\<close>. (\<^verbatim>\<open>add_page\<close> inserts into the index
  in the same way.)
\<close>

theorem archive_invariant_broken:
  "chapters_partition_index example_book
   \<and> (case remove_page example_book 0 of
        Inr r \<Rightarrow> chapter_lengths (fst r) = [2, 1, 3] \<and> length (index (fst r)) = 5
                 \<and> \<not> chapters_partition_index (fst r)
      | Inl e \<Rightarrow> False)
   \<and> (case fst (convert_pages example_package example_book None None None None example_damaged) of
        Inr r \<Rightarrow> chapter_lengths (fst r) = [2, 1, 3] \<and> length (index (fst r)) = 5
                 \<and> bad_files (fst r) = [''/tmp/reCBZ2cache/book_a/b.png'']
                 \<and> \<not> chapters_partition_index (fst r)
      | Inl e \<Rightarrow> False)"
  by code_simp

section \<open>The aspect-preserving size (\<^verbatim>\<open>get_size_that_preserves_ratio\<close>)\<close>

subsection \<open>Rounding to binary64\<close>


lemma round_half_even_int [simp]: "round_half_even (of_int k) = k"
  by (simp add: round_half_even_def)







lemma ulp_pos [simp]: "0 < ulp q"
  by (simp add: ulp_def)

lemma ulp_nonneg [simp]: "0 \<le> ulp q"
  by (rule less_imp_le [OF ulp_pos])

lemma ulp_neq0 [simp]: "ulp q \<noteq> 0"
  by (simp add: ulp_def)














lemma fl_zero [simp]: "fl 0 = 0"
  by (simp add: fl_def)












subsection \<open>The two branches\<close>












lemma get_size_that_preserves_ratio_zero_height:
  "get_size_that_preserves_ratio (width, 0) viewport = Inl ZeroDivisionError"
  by (simp add: get_size_that_preserves_ratio_def)



end
